theory Spec2Isabelle
  imports Complex_Main "HOL-Library.AList"
begin

section \<open>Urban air quality ETL: values shared by the stages\<close>

text \<open>
  A parsed JSON document, as \<^verbatim>\<open>json.load\<close> and \<^verbatim>\<open>resp.json()\<close> return it. An object is an
  association list read with \<open>map_of\<close> (the first binding of a key is the one a Python
  \<^verbatim>\<open>dict\<close> lookup sees). Numbers are idealised as reals.
\<close>

datatype json =
    JNull
  | JBool bool
  | JNum real
  | JStr string
  | JArr "json list"
  | JObj "(string \<times> json) list"

text \<open>
  A \<^verbatim>\<open>float64\<close> cell of a pandas column: \<open>NaN\<close> is the marker pandas uses for an absent
  value, \<open>Fin x\<close> a finite value. Rounding and the infinities are not modelled; what is
  modelled is that \<open>NaN\<close> absorbs arithmetic and fails every comparison.
\<close>

datatype fl = NaN | Fin real

fun fl_add :: "fl \<Rightarrow> fl \<Rightarrow> fl" where
  "fl_add (Fin a) (Fin b) = Fin (a + b)"
| "fl_add _ _ = NaN"

fun fl_mul :: "fl \<Rightarrow> fl \<Rightarrow> fl" where
  "fl_mul (Fin a) (Fin b) = Fin (a * b)"
| "fl_mul _ _ = NaN"

fun fl_le :: "fl \<Rightarrow> fl \<Rightarrow> bool" where
  "fl_le (Fin a) (Fin b) = (a \<le> b)"
| "fl_le _ _ = False"

fun fl_gt :: "fl \<Rightarrow> fl \<Rightarrow> bool" where
  "fl_gt (Fin a) (Fin b) = (a > b)"
| "fl_gt _ _ = False"

fun isna :: "fl \<Rightarrow> bool" where
  "isna NaN = True"
| "isna (Fin _) = False"

datatype exn = AttributeError | TypeError | ValueError

text \<open>Python truthiness, \<^verbatim>\<open>len\<close>, and \<^verbatim>\<open>x.get(key, default)\<close> on a parsed JSON value.\<close>

fun truthy :: "json \<Rightarrow> bool" where
  "truthy JNull = False"
| "truthy (JBool b) = b"
| "truthy (JNum x) = (x \<noteq> 0)"
| "truthy (JStr s) = (s \<noteq> [])"
| "truthy (JArr xs) = (xs \<noteq> [])"
| "truthy (JObj kvs) = (kvs \<noteq> [])"

fun py_len :: "json \<Rightarrow> exn + nat" where
  "py_len (JStr s) = Inr (length s)"
| "py_len (JArr xs) = Inr (length xs)"
| "py_len (JObj kvs) = Inr (length kvs)"
| "py_len _ = Inl TypeError"

definition dict_get :: "(string \<times> json) list \<Rightarrow> string \<Rightarrow> json \<Rightarrow> json" where
  "dict_get d key dflt = (case map_of d key of None \<Rightarrow> dflt | Some v \<Rightarrow> v)"

section \<open>transform.py\<close>

subsection \<open>Feature functions\<close>

text \<open>\<^verbatim>\<open>classify_aqi(pm2_5)\<close>: an \<^verbatim>\<open>if/elif\<close> chain of \<^verbatim>\<open><=\<close> tests, \<^verbatim>\<open>else\<close> last.\<close>

definition classify_aqi :: "fl \<Rightarrow> string" where
  "classify_aqi pm2_5 =
     (if fl_le pm2_5 (Fin 50) then ''Good''
      else if fl_le pm2_5 (Fin 100) then ''Moderate''
      else if fl_le pm2_5 (Fin 200) then ''Unhealthy''
      else if fl_le pm2_5 (Fin 300) then ''Very Unhealthy''
      else ''Hazardous'')"

text \<open>
  \<^verbatim>\<open>row.get(key, default)\<close> on a row of the frame: the default is returned only when the
  row has no such label; a label whose cell is \<open>NaN\<close> yields \<open>NaN\<close>.
\<close>

definition row_get :: "(string \<times> fl) list \<Rightarrow> string \<Rightarrow> fl \<Rightarrow> fl" where
  "row_get row key dflt = (case map_of row key of None \<Rightarrow> dflt | Some v \<Rightarrow> v)"

definition compute_severity :: "(string \<times> fl) list \<Rightarrow> fl" where
  "compute_severity row =
     fl_add (fl_add (fl_add (fl_add (fl_add
       (fl_mul (row_get row ''pm2_5'' (Fin 0)) (Fin 5))
       (fl_mul (row_get row ''pm10'' (Fin 0)) (Fin 3)))
       (fl_mul (row_get row ''nitrogen_dioxide'' (Fin 0)) (Fin 4)))
       (fl_mul (row_get row ''sulphur_dioxide'' (Fin 0)) (Fin 4)))
       (fl_mul (row_get row ''carbon_monoxide'' (Fin 0)) (Fin 2)))
       (fl_mul (row_get row ''ozone'' (Fin 0)) (Fin 3))"

definition risk_classification :: "fl \<Rightarrow> string" where
  "risk_classification severity =
     (if fl_gt severity (Fin 400) then ''High Risk''
      else if fl_gt severity (Fin 200) then ''Moderate Risk''
      else ''Low Risk'')"

subsection \<open>One row of the staged frame\<close>

text \<open>
  \<open>time\<close> is a \<^verbatim>\<open>datetime64[ns]\<close> cell: nanoseconds since the epoch, \<open>None\<close> for \<^verbatim>\<open>NaT\<close>.
  \<open>hour\<close> is \<^verbatim>\<open>df["time"].dt.hour\<close>, absent where the time is \<^verbatim>\<open>NaT\<close>.
\<close>

record hourly_record =
  time :: "int option"
  pm10 :: fl
  pm2_5 :: fl
  carbon_monoxide :: fl
  nitrogen_dioxide :: fl
  sulphur_dioxide :: fl
  ozone :: fl
  uv_index :: fl
  city :: json
  hour :: "nat option"
  AQI_category :: string
  severity_score :: fl
  risk :: string

definition dt_hour :: "int \<Rightarrow> nat" where
  "dt_hour ns = nat ((ns div 3600000000000) mod 24)"

definition cols :: "string list" where
  "cols = [''pm10'', ''pm2_5'', ''carbon_monoxide'', ''nitrogen_dioxide'',
           ''sulphur_dioxide'', ''ozone'', ''uv_index'']"

text \<open>
  The labelled numeric cells of a row, as \<^verbatim>\<open>df.apply(compute_severity, axis=1)\<close> hands them
  to \<^verbatim>\<open>compute_severity\<close>: every column of \<^verbatim>\<open>cols\<close> is a label of the row, whatever its cell.
\<close>

definition series :: "fl \<Rightarrow> fl \<Rightarrow> fl \<Rightarrow> fl \<Rightarrow> fl \<Rightarrow> fl \<Rightarrow> fl \<Rightarrow> (string \<times> fl) list" where
  "series p10 p25 co no2 so2 o3 uv =
     [(''pm10'', p10), (''pm2_5'', p25), (''carbon_monoxide'', co), (''nitrogen_dioxide'', no2),
      (''sulphur_dioxide'', so2), (''ozone'', o3), (''uv_index'', uv)]"

definition mk_record ::
  "json \<Rightarrow> int option \<Rightarrow> fl \<Rightarrow> fl \<Rightarrow> fl \<Rightarrow> fl \<Rightarrow> fl \<Rightarrow> fl \<Rightarrow> fl \<Rightarrow> hourly_record" where
  "mk_record city_name t p10 p25 co no2 so2 o3 uv =
     (let sev = compute_severity (series p10 p25 co no2 so2 o3 uv) in
      \<lparr> time = t, pm10 = p10, pm2_5 = p25, carbon_monoxide = co, nitrogen_dioxide = no2,
        sulphur_dioxide = so2, ozone = o3, uv_index = uv, city = city_name,
        hour = map_option dt_hour t, AQI_category = classify_aqi p25,
        severity_score = sev, risk = risk_classification sev \<rparr>)"

text \<open>The cells \<^verbatim>\<open>dropna(subset=cols, how="all")\<close> looks at, in the order of \<^verbatim>\<open>cols\<close>.\<close>

definition subset_cells :: "hourly_record \<Rightarrow> fl list" where
  "subset_cells r = [pm10 r, pm2_5 r, carbon_monoxide r, nitrogen_dioxide r,
                     sulphur_dioxide r, ozone r, uv_index r]"

definition dropna_all :: "hourly_record list \<Rightarrow> hourly_record list" where
  "dropna_all rows = filter (\<lambda>r. \<not> list_all isna (subset_cells r)) rows"

text \<open>The six pollutant cells of a row (\<^verbatim>\<open>cols\<close> without \<^verbatim>\<open>uv_index\<close>).\<close>

definition pollutants :: "hourly_record \<Rightarrow> fl list" where
  "pollutants r = [pm10 r, pm2_5 r, carbon_monoxide r, nitrogen_dioxide r,
                   sulphur_dioxide r, ozone r]"

text \<open>How the three derived cells of a row depend on its measured cells.\<close>

definition derived_ok :: "hourly_record \<Rightarrow> bool" where
  "derived_ok r \<longleftrightarrow>
     AQI_category r = classify_aqi (pm2_5 r) \<and>
     severity_score r =
       compute_severity (series (pm10 r) (pm2_5 r) (carbon_monoxide r) (nitrogen_dioxide r)
                                (sulphur_dioxide r) (ozone r) (uv_index r)) \<and>
     risk r = risk_classification (severity_score r)"

subsection \<open>Column conversion\<close>

text \<open>
  \<^verbatim>\<open>pd.to_numeric(..., errors="coerce")\<close> on a cell: a JSON number is kept, \<^verbatim>\<open>null\<close> (and the
  padding \<^verbatim>\<open>None\<close>) becomes \<open>NaN\<close>. \<^verbatim>\<open>pd.to_datetime(..., errors="coerce")\<close> on a cell: a
  string is parsed by pandas (the parameter \<open>parse\<close>, \<open>None\<close> for \<^verbatim>\<open>NaT\<close>), \<^verbatim>\<open>null\<close> becomes
  \<^verbatim>\<open>NaT\<close>. What pandas does with any other cell is outside this model (outer \<open>None\<close>).
\<close>

fun to_numeric :: "json \<Rightarrow> fl option" where
  "to_numeric (JNum x) = Some (Fin x)"
| "to_numeric JNull = Some NaN"
| "to_numeric _ = None"

fun to_datetime :: "(string \<Rightarrow> int option) \<Rightarrow> json \<Rightarrow> int option option" where
  "to_datetime parse (JStr s) = Some (parse s)"
| "to_datetime parse JNull = Some None"
| "to_datetime parse _ = None"

fun column_cells :: "(json \<Rightarrow> 'a option) \<Rightarrow> json \<Rightarrow> 'a list option" where
  "column_cells f (JArr xs) = those (map f xs)"
| "column_cells f _ = None"

subsection \<open>flatten_city_json\<close>

text \<open>
  \<^verbatim>\<open>max(len(hourly.get(c, [])) for c in cols + ["time"])\<close>: the lengths are taken in that
  order, and the first value without a length raises \<^verbatim>\<open>TypeError\<close>.
\<close>

fun len_all :: "json list \<Rightarrow> exn + nat list" where
  "len_all [] = Inr []"
| "len_all (v # vs) =
     (case py_len v of
        Inl e \<Rightarrow> Inl e
      | Inr n \<Rightarrow> (case len_all vs of Inl e \<Rightarrow> Inl e | Inr ns \<Rightarrow> Inr (n # ns)))"

definition max_len :: "(string \<times> json) list \<Rightarrow> exn + nat" where
  "max_len hourly =
     (case len_all (map (\<lambda>c. dict_get hourly c (JArr [])) (cols @ [''time''])) of
        Inl e \<Rightarrow> Inl e
      | Inr ns \<Rightarrow> Inr (fold max ns 0))"

text \<open>
  The padding loop \<^verbatim>\<open>for c in ["time"] + cols\<close>. \<^verbatim>\<open>arr\<close> is the list object stored in
  \<^verbatim>\<open>hourly\<close> when the key is there, so \<^verbatim>\<open>arr.extend\<close> changes \<^verbatim>\<open>hourly\<close> itself: the loop
  returns the section as it is afterwards beside \<^verbatim>\<open>data\<close>. For a missing key \<^verbatim>\<open>arr\<close> is a
  fresh \<^verbatim>\<open>[]\<close> that only \<^verbatim>\<open>data\<close> keeps. A string or an object that is too short has no
  \<^verbatim>\<open>extend\<close>.
\<close>

fun pad_columns ::
  "nat \<Rightarrow> string list \<Rightarrow> (string \<times> json) list \<Rightarrow> (string \<times> json) list
     \<Rightarrow> (exn + (string \<times> json) list) \<times> (string \<times> json) list" where
  "pad_columns n [] hourly data = (Inr data, hourly)"
| "pad_columns n (c # cs) hourly data =
     (case map_of hourly c of
        None \<Rightarrow> pad_columns n cs hourly (data @ [(c, JArr (replicate n JNull))])
      | Some arr \<Rightarrow>
          (case py_len arr of
             Inl e \<Rightarrow> (Inl e, hourly)
           | Inr k \<Rightarrow>
               if k < n then
                 (case arr of
                    JArr xs \<Rightarrow>
                      (let arr' = JArr (xs @ replicate (n - k) JNull)
                       in pad_columns n cs (AList.update c arr' hourly) (data @ [(c, arr')]))
                  | _ \<Rightarrow> (Inl AttributeError, hourly))
               else pad_columns n cs hourly (data @ [(c, arr)])))"

text \<open>
  What the loop stores in \<^verbatim>\<open>data\<close> for a column whose entry in \<^verbatim>\<open>hourly\<close> is \<open>v\<close>: for a
  missing key \<open>n\<close> markers, for an array the array extended by markers to \<open>n\<close> cells.
\<close>

definition padded_cell :: "nat \<Rightarrow> json option \<Rightarrow> json" where
  "padded_cell n v = (case v of None \<Rightarrow> JArr (replicate n JNull)
     | Some (JArr xs) \<Rightarrow> JArr (xs @ replicate (n - length xs) JNull) | Some w \<Rightarrow> w)"

text \<open>
  \<^verbatim>\<open>pd.DataFrame(data)\<close>, the conversions and the three derived columns, row by row.
  \<open>None\<close>: a column or a cell whose treatment by pandas is outside this model.
\<close>

definition frame_rows ::
  "(string \<Rightarrow> int option) \<Rightarrow> json \<Rightarrow> nat \<Rightarrow> (string \<times> json) list
     \<Rightarrow> hourly_record list option" where
  "frame_rows parse city_name n data =
     Option.bind (column_cells (to_datetime parse) (dict_get data ''time'' JNull)) (\<lambda>ts.
     Option.bind (column_cells to_numeric (dict_get data ''pm10'' JNull)) (\<lambda>p10s.
     Option.bind (column_cells to_numeric (dict_get data ''pm2_5'' JNull)) (\<lambda>p25s.
     Option.bind (column_cells to_numeric (dict_get data ''carbon_monoxide'' JNull)) (\<lambda>cos.
     Option.bind (column_cells to_numeric (dict_get data ''nitrogen_dioxide'' JNull)) (\<lambda>no2s.
     Option.bind (column_cells to_numeric (dict_get data ''sulphur_dioxide'' JNull)) (\<lambda>so2s.
     Option.bind (column_cells to_numeric (dict_get data ''ozone'' JNull)) (\<lambda>o3s.
     Option.bind (column_cells to_numeric (dict_get data ''uv_index'' JNull)) (\<lambda>uvs.
       Some (map (\<lambda>i. mk_record city_name (ts ! i) (p10s ! i) (p25s ! i) (cos ! i)
                          (no2s ! i) (so2s ! i) (o3s ! i) (uvs ! i)) [0..<n])))))))))"

datatype flatten_result =
    Raised exn
  | Returned "hourly_record list"
  | Unmodelled

text \<open>
  The body of \<^verbatim>\<open>flatten_city_json\<close> after the list test, on the payload \<^verbatim>\<open>json.load\<close> has
  read from the raw file. \<open>fallback\<close> is the value of
  \<^verbatim>\<open>Path(json_path).stem.split("_")[0].capitalize()\<close>. The two \<^verbatim>\<open>return pd.DataFrame()\<close> are
  \<open>Returned []\<close>. The function returns the frame only: the loaded object, with the arrays
  the padding loop has extended, is local to the call.
\<close>

definition flatten_payload ::
  "(string \<Rightarrow> int option) \<Rightarrow> string \<Rightarrow> json \<Rightarrow> flatten_result" where
  "flatten_payload parse fallback payload =
     (case payload of
        JObj kvs \<Rightarrow>
          (let city_name = (let c = dict_get kvs ''city'' JNull
                            in if truthy c then c else JStr fallback);
               hourly = dict_get kvs ''hourly'' (JObj [])
           in if \<not> truthy hourly then Returned []
              else
                (case hourly of
                   JObj h \<Rightarrow>
                     (case max_len h of
                        Inl e \<Rightarrow> Raised e
                      | Inr n \<Rightarrow>
                          (case pad_columns n (''time'' # cols) h [] of
                             (Inl e, h') \<Rightarrow> Raised e
                           | (Inr data, h') \<Rightarrow>
                               (case frame_rows parse city_name n data of
                                  None \<Rightarrow> Unmodelled
                                | Some rows \<Rightarrow> Returned (dropna_all rows))))
                 | _ \<Rightarrow> Raised AttributeError))
      | _ \<Rightarrow> Raised AttributeError)"

definition flatten_city_json ::
  "(string \<Rightarrow> int option) \<Rightarrow> string \<Rightarrow> json \<Rightarrow> flatten_result" where
  "flatten_city_json parse fallback payload =
     (case payload of
        JArr [] \<Rightarrow> Returned []
      | JArr (p # ps) \<Rightarrow> flatten_payload parse fallback p
      | _ \<Rightarrow> flatten_payload parse fallback payload)"

subsection \<open>transform_all\<close>

text \<open>
  The loop over the raw files, each given by its fallback city name and its parsed content.
  Nothing in \<^verbatim>\<open>transform_all\<close> catches an exception of \<^verbatim>\<open>flatten_city_json\<close>, so the first
  one ends the loop. \<^verbatim>\<open>pd.concat(dfs, ignore_index=True)\<close> appends the frames in order.
\<close>

fun transform_loop ::
  "(string \<Rightarrow> int option) \<Rightarrow> (string \<times> json) list \<Rightarrow> flatten_result" where
  "transform_loop parse [] = Returned []"
| "transform_loop parse ((fallback, payload) # files) =
     (case flatten_city_json parse fallback payload of
        Raised e \<Rightarrow> Raised e
      | Unmodelled \<Rightarrow> Unmodelled
      | Returned rows \<Rightarrow>
          (case transform_loop parse files of
             Returned rest \<Rightarrow> Returned (rows @ rest)
           | r \<Rightarrow> r))"

definition transform_all ::
  "(string \<Rightarrow> int option) \<Rightarrow> (string \<times> json) list \<Rightarrow> flatten_result" where
  "transform_all parse files =
     (case transform_loop parse files of
        Returned rows \<Rightarrow> if files = [] then Raised ValueError else Returned rows
      | r \<Rightarrow> r)"

section \<open>extract.py\<close>

text \<open>
  What one pass through the \<^verbatim>\<open>try\<close> block meets. \<open>response\<close> is the outcome of
  \<^verbatim>\<open>requests.get\<close>, \<^verbatim>\<open>raise_for_status\<close> and \<^verbatim>\<open>resp.json()\<close> together: the parsed body, or the
  message of the exception, by the \<^verbatim>\<open>except\<close> clause that takes it. \<open>sink\<close> is what the file
  system does when \<^verbatim>\<open>_save_raw\<close> writes: \<open>None\<close> when a write goes through, the message of the
  exception otherwise; \<open>now_ts\<close> is the value of \<^verbatim>\<open>_now_ts()\<close>, and \<open>resolved\<close> is
  \<^verbatim>\<open>path.resolve()\<close>, the absolute path the file system gives for a path.
\<close>

datatype response = Body json | RequestException string | OtherException string

record sink =
  now_ts :: string
  resolved :: "string \<Rightarrow> string"
  json_write :: "string option"
  txt_write :: "string option"

record attempt_env =
  response :: response
  sink_env :: sink

text \<open>\<^verbatim>\<open>city.replace(' ', '_').lower()\<close>, on ASCII letters.\<close>

definition lower_char :: "char \<Rightarrow> char" where
  "lower_char c =
     (let n = (of_char c :: nat) in if 65 \<le> n \<and> n \<le> 90 then char_of (n + 32) else c)"

definition file_stem :: "string \<Rightarrow> string" where
  "file_stem city_name =
     map lower_char (map (\<lambda>c. if c = CHR '' '' then CHR ''_'' else c) city_name)"

text \<open>
  \<^verbatim>\<open>_save_raw(payload, city)\<close>: the JSON file first; when that write raises, the plain-text
  file; when that raises too, the exception leaves the function (\<open>Inl\<close>). Otherwise the
  resolved path of the file under \<^verbatim>\<open>RAW_DIR\<close>.
\<close>

definition save_raw :: "string \<Rightarrow> sink \<Rightarrow> json \<Rightarrow> string \<Rightarrow> string + string" where
  "save_raw RAW_DIR env payload city_name =
     (case json_write env of
        None \<Rightarrow>
          Inr (resolved env
                 (RAW_DIR @ ''/'' @ file_stem city_name @ ''_raw_'' @ now_ts env @ ''.json''))
      | Some _ \<Rightarrow>
          (case txt_write env of
             None \<Rightarrow>
               Inr (resolved env
                      (RAW_DIR @ ''/'' @ file_stem city_name @ ''_raw_'' @ now_ts env @ ''.txt''))
           | Some msg \<Rightarrow> Inl msg))"

text \<open>
  The \<^verbatim>\<open>try\<close> block of \<^verbatim>\<open>_fetch_city\<close>: \<open>Inr\<close> the saved path when it reaches \<^verbatim>\<open>return\<close>,
  \<open>Inl\<close> the text of the exception that one of the two \<^verbatim>\<open>except\<close> clauses stores in
  \<^verbatim>\<open>last_error\<close>. \<^verbatim>\<open>_save_raw\<close> is called inside the \<^verbatim>\<open>try\<close>, so its exception lands in
  \<^verbatim>\<open>except Exception\<close>.
\<close>

definition try_fetch :: "string \<Rightarrow> attempt_env \<Rightarrow> string \<Rightarrow> string + string" where
  "try_fetch RAW_DIR env city_name =
     (case response env of
        Body payload \<Rightarrow> save_raw RAW_DIR (sink_env env) payload city_name
      | RequestException msg \<Rightarrow> Inl msg
      | OtherException msg \<Rightarrow> Inl msg)"

text \<open>The two dictionaries \<^verbatim>\<open>_fetch_city\<close> returns.\<close>

definition fetch_success :: "string \<Rightarrow> string \<Rightarrow> (string \<times> string option) list" where
  "fetch_success city_name saved_path =
     [(''city'', Some city_name), (''success'', Some ''true''), (''raw_path'', Some saved_path)]"

definition fetch_failure :: "string \<Rightarrow> string option \<Rightarrow> (string \<times> string option) list" where
  "fetch_failure city_name last_error =
     [(''city'', Some city_name), (''success'', Some ''false''), (''error'', last_error)]"

text \<open>
  The \<^verbatim>\<open>while attempt < MAX_RETRIES\<close> loop. \<open>world k\<close> is what attempt \<open>k\<close> meets. The state
  is \<^verbatim>\<open>attempt\<close>, \<^verbatim>\<open>last_error\<close> and the arguments of the \<^verbatim>\<open>time.sleep\<close> calls made so far, in
  seconds; the result is the returned dictionary, the number of attempts made and the sleeps.
\<close>

function fetch_loop ::
  "int \<Rightarrow> string \<Rightarrow> (nat \<Rightarrow> attempt_env) \<Rightarrow> string \<Rightarrow> nat \<Rightarrow> string option \<Rightarrow> nat list
     \<Rightarrow> (string \<times> string option) list \<times> nat \<times> nat list" where
  "fetch_loop MAX_RETRIES RAW_DIR world city_name attempt last_error slept =
     (if int attempt < MAX_RETRIES then
        (case try_fetch RAW_DIR (world (attempt + 1)) city_name of
           Inr saved_path \<Rightarrow> (fetch_success city_name saved_path, attempt + 1, slept)
         | Inl e \<Rightarrow>
             fetch_loop MAX_RETRIES RAW_DIR world city_name (attempt + 1) (Some e)
               (slept @ [2 ^ (attempt + 1 - 1)]))
      else (fetch_failure city_name last_error, attempt, slept))"
  by pat_completeness auto
termination
  by (relation "measure (\<lambda>(m, _, _, _, attempt, _, _). nat (m - int attempt))") auto

declare fetch_loop.simps [simp del]

definition fetch_city ::
  "int \<Rightarrow> string \<Rightarrow> (nat \<Rightarrow> attempt_env) \<Rightarrow> string
     \<Rightarrow> (string \<times> string option) list \<times> nat \<times> nat list" where
  "fetch_city MAX_RETRIES RAW_DIR world city_name =
     fetch_loop MAX_RETRIES RAW_DIR world city_name 0 None []"

section \<open>etl_analysis.py\<close>

text \<open>
  The frame \<^verbatim>\<open>fetch_table\<close> hands to \<^verbatim>\<open>compute_kpis\<close>, by columns: text cells (\<open>None\<close> for a
  missing value), \<^verbatim>\<open>float64\<close> cells, \<^verbatim>\<open>datetime64[ns]\<close> cells (\<open>None\<close> for \<^verbatim>\<open>NaT\<close>). All columns
  of a frame have \<^verbatim>\<open>len(df)\<close> cells.
\<close>

datatype column = Strs "string option list" | Nums "fl list" | Times "int option list"

fun col_len :: "column \<Rightarrow> nat" where
  "col_len (Strs xs) = length xs"
| "col_len (Nums xs) = length xs"
| "col_len (Times xs) = length xs"

definition nrows :: "(string \<times> column) list \<Rightarrow> nat" where
  "nrows df = (case df of [] \<Rightarrow> 0 | (_, c) # _ \<Rightarrow> col_len c)"

definition df_empty :: "(string \<times> column) list \<Rightarrow> bool" where
  "df_empty df = (df = [] \<or> nrows df = 0)"

subsection \<open>risk_percentage\<close>

definition fillna :: "string \<Rightarrow> string option list \<Rightarrow> string list" where
  "fillna v xs = map (\<lambda>x. case x of None \<Rightarrow> v | Some s \<Rightarrow> s) xs"

text \<open>
  \<^verbatim>\<open>value_counts()\<close>: one entry per distinct value, in order of first appearance, then
  sorted by count, largest first (modelled stable).
\<close>

definition first_seen :: "'a list \<Rightarrow> 'a list" where
  "first_seen xs = rev (remdups (rev xs))"

definition value_counts :: "string list \<Rightarrow> (string \<times> nat) list" where
  "value_counts xs =
     sort_key (\<lambda>kv. - int (snd kv)) (map (\<lambda>k. (k, count_list xs k)) (first_seen xs))"

text \<open>
  The arithmetic of \<^verbatim>\<open>round((v / total) * 100, 2)\<close> on Python floats (\<^verbatim>\<open>value_counts().items()\<close>
  hands out Python integers). A float64 is modelled by the real it denotes, in the normal
  range (no overflow, no subnormals: the values formed here lie between \<open>2\<^sup>-\<^sup>6\<^sup>3\<close>
  and 100). Every operation rounds its exact result to the nearest float64, ties to the
  even mantissa.
\<close>

text \<open>Round to the nearest integer, ties to the even one.\<close>

definition rint :: "real \<Rightarrow> int" where
  "rint x =
     (let f = \<lfloor>x\<rfloor>; d = x - of_int f
      in if d < 1 / 2 then f else if 1 / 2 < d then f + 1 else if even f then f else f + 1)"

text \<open>
  \<open>pow2 e\<close> is \<open>2\<^sup>e\<close>; \<open>expo x\<close>, for positive \<open>x\<close>, is the binary exponent \<open>e\<close> with
  \<open>2\<^sup>e \<le> x < 2\<^sup>e\<^sup>+\<^sup>1\<close>, found by halving above 2 and doubling below 1.
\<close>

definition pow2 :: "int \<Rightarrow> real" where
  "pow2 e = (if 0 \<le> e then 2 ^ nat e else 1 / 2 ^ nat (- e))"

function expo_hi :: "real \<Rightarrow> int" where
  "expo_hi x = (if 2 \<le> x then expo_hi (x / 2) + 1 else 0)"
  by pat_completeness auto
termination
proof (relation "measure (\<lambda>x. nat \<lfloor>x\<rfloor>)")
  fix x :: real
  assume "2 \<le> x"
  then have "of_int \<lfloor>x / 2\<rfloor> < (of_int \<lfloor>x\<rfloor> :: real)" by linarith
  then have "\<lfloor>x / 2\<rfloor> < \<lfloor>x\<rfloor>" by linarith
  moreover from \<open>2 \<le> x\<close> have "0 < \<lfloor>x\<rfloor>" by linarith
  ultimately show "(x / 2, x) \<in> measure (\<lambda>x. nat \<lfloor>x\<rfloor>)" by simp
qed simp

function expo_lo :: "real \<Rightarrow> int" where
  "expo_lo x = (if 0 < x \<and> x < 1 then expo_lo (x * 2) - 1 else 0)"
  by pat_completeness auto
termination
proof (relation "measure (\<lambda>x. nat \<lceil>1 / x\<rceil>)")
  fix x :: real
  assume a: "0 < x \<and> x < 1"
  define y where "y = 1 / x"
  from a have one: "1 < y" by (simp add: y_def)
  have half: "1 / (x * 2) = y / 2" by (simp add: y_def)
  have "\<lceil>y / 2\<rceil> < \<lceil>y\<rceil>"
  proof (cases "2 \<le> y")
    case True
    have "of_int \<lceil>y / 2\<rceil> < y / 2 + 1" using ceiling_correct [of "y / 2"] by linarith
    also have "\<dots> \<le> y" using True by simp
    also have "\<dots> \<le> of_int \<lceil>y\<rceil>" by (rule le_of_int_ceiling)
    finally show ?thesis by simp
  next
    case False
    with one have "\<lceil>y / 2\<rceil> = 1" "\<lceil>y\<rceil> = 2"
      by (simp_all add: ceiling_eq_iff)
    then show ?thesis by simp
  qed
  moreover from one have "0 < \<lceil>y\<rceil>" by linarith
  ultimately show "(x * 2, x) \<in> measure (\<lambda>x. nat \<lceil>1 / x\<rceil>)"
    by (simp add: half y_def [symmetric])
qed simp

declare expo_hi.simps [simp del] expo_lo.simps [simp del]

definition expo :: "real \<Rightarrow> int" where
  "expo x = (if 1 \<le> x then expo_hi x else expo_lo x)"

text \<open>
  \<open>RN x\<close>: the float64 nearest to \<open>x\<close>. With 53 bits of mantissa the spacing of the floats
  around \<open>x\<close> is \<open>2\<close> to the power \<open>expo \<bar>x\<bar> - 52\<close>.
\<close>

definition RN :: "real \<Rightarrow> real" where
  "RN x = (if x = 0 then 0
           else (let u = pow2 (expo \<bar>x\<bar> - 52) in of_int (rint (x / u)) * u))"

text \<open>Float division and multiplication: the exact result, rounded once.\<close>

definition float_div :: "real \<Rightarrow> real \<Rightarrow> real" where
  "float_div a b = RN (a / b)"

definition float_mul :: "real \<Rightarrow> real \<Rightarrow> real" where
  "float_mul a b = RN (a * b)"

text \<open>
  \<^verbatim>\<open>round(x, ndigits)\<close> of a float: the exact value of \<open>x\<close> is rounded to \<open>ndigits\<close> decimals,
  ties to even, and the float nearest to that decimal number is returned.
\<close>

definition py_round :: "real \<Rightarrow> nat \<Rightarrow> real" where
  "py_round x ndigits = RN (of_int (rint (x * 10 ^ ndigits)) / 10 ^ ndigits)"

text \<open>\<^verbatim>\<open>round((v / total) * 100, 2)\<close> for a count \<open>v\<close> and \<^verbatim>\<open>total = len(df)\<close>.\<close>

definition percentage :: "nat \<Rightarrow> nat \<Rightarrow> real" where
  "percentage v n = py_round (float_mul (float_div (real v) (real n)) 100) 2"

text \<open>
  The \<^verbatim>\<open>risk_percentage\<close> entry of \<^verbatim>\<open>compute_kpis\<close>; \<open>None\<close> when the dictionary gets no such
  entry (empty frame, no \<^verbatim>\<open>risk_flag\<close> column).
\<close>

definition risk_percentage :: "(string \<times> column) list \<Rightarrow> (string \<times> real) list option" where
  "risk_percentage df =
     (if df_empty df then None
      else
        (case map_of df ''risk_flag'' of
           Some (Strs flags) \<Rightarrow>
             (let total = nrows df;
                  risk_counts = value_counts (fillna ''Unknown'' flags)
              in Some (map (\<lambda>(k, v). (k, percentage v total)) risk_counts))
         | _ \<Rightarrow> None))"

subsection \<open>worst_hour_by_avg_pm2_5\<close>






section \<open>Concrete inputs\<close>

text \<open>
  The timestamp parser of pandas on the two ISO-8601 strings the examples use
  (nanoseconds since the epoch); every other string is taken as unparsable.
\<close>

definition parse_iso :: "string \<Rightarrow> int option" where
  "parse_iso s =
     (if s = ''2024-01-01T00:00'' then Some 1704067200000000000
      else if s = ''2024-01-01T01:00'' then Some 1704070800000000000
      else None)"

text \<open>One hour with PM2.5 = 60 and no other series.\<close>

definition payload_pm2_5_only :: json where
  "payload_pm2_5_only =
     JObj [(''latitude'', JNum 28.7),
           (''hourly'', JObj [(''time'', JArr [JStr ''2024-01-01T00:00'']),
                              (''pm2_5'', JArr [JNum 60])])]"

text \<open>One hour with PM10 = 10 and PM2.5 reported as \<^verbatim>\<open>null\<close>.\<close>

definition payload_pm2_5_null :: json where
  "payload_pm2_5_null =
     JObj [(''hourly'', JObj [(''time'', JArr [JStr ''2024-01-01T00:00'']),
                              (''pm10'', JArr [JNum 10]),
                              (''pm2_5'', JArr [JNull])])]"

text \<open>One hour with a UV index and every pollutant \<^verbatim>\<open>null\<close>.\<close>

definition payload_uv_only :: json where
  "payload_uv_only =
     JObj [(''hourly'', JObj [(''time'', JArr [JStr ''2024-01-01T00:00'']),
                              (''pm10'', JArr [JNull]),
                              (''pm2_5'', JArr [JNull]),
                              (''carbon_monoxide'', JArr [JNull]),
                              (''nitrogen_dioxide'', JArr [JNull]),
                              (''sulphur_dioxide'', JArr [JNull]),
                              (''ozone'', JArr [JNull]),
                              (''uv_index'', JArr [JNum 3.5])])]"

text \<open>One hour with PM2.5 = 1000, four more pollutants at 500, and no PM10 series.\<close>

definition payload_no_pm10 :: json where
  "payload_no_pm10 =
     JObj [(''city'', JStr ''Delhi''),
           (''hourly'', JObj [(''time'', JArr [JStr ''2024-01-01T00:00'']),
                              (''pm2_5'', JArr [JNum 1000]),
                              (''carbon_monoxide'', JArr [JNum 500]),
                              (''nitrogen_dioxide'', JArr [JNum 500]),
                              (''sulphur_dioxide'', JArr [JNum 500]),
                              (''ozone'', JArr [JNum 500])])]"

text \<open>The row \<^verbatim>\<open>flatten_city_json\<close> makes of it.\<close>

definition row_no_pm10 :: hourly_record where
  "row_no_pm10 =
     \<lparr> time = Some 1704067200000000000, pm10 = NaN, pm2_5 = Fin 1000, carbon_monoxide = Fin 500,
       nitrogen_dioxide = Fin 500, sulphur_dioxide = Fin 500, ozone = Fin 500, uv_index = NaN,
       city = JStr ''Delhi'', hour = Some 0, AQI_category = ''Hazardous'',
       severity_score = NaN, risk = ''Low Risk'' \<rparr>"

text \<open>A ragged section: two times, one PM2.5 value, no PM10 value, and a series outside \<^verbatim>\<open>cols\<close>.\<close>

definition ragged_hourly :: "(string \<times> json) list" where
  "ragged_hourly =
     [(''time'', JArr [JStr ''2024-01-01T00:00'', JStr ''2024-01-01T01:00'']),
      (''pm2_5'', JArr [JNum 60]),
      (''pm10'', JArr []),
      (''dust'', JArr [JNum 1])]"

definition ragged_kvs :: "(string \<times> json) list" where
  "ragged_kvs = [(''latitude'', JNum 28.7), (''hourly'', JObj ragged_hourly)]"

text \<open>A complete one-hour payload, and raw files that are not payloads.\<close>

definition payload_complete :: json where
  "payload_complete =
     JObj [(''hourly'', JObj [(''time'', JArr [JStr ''2024-01-01T00:00'']),
                              (''pm10'', JArr [JNum 10]),
                              (''pm2_5'', JArr [JNum 60]),
                              (''carbon_monoxide'', JArr [JNum 1]),
                              (''nitrogen_dioxide'', JArr [JNum 1]),
                              (''sulphur_dioxide'', JArr [JNum 1]),
                              (''ozone'', JArr [JNum 1]),
                              (''uv_index'', JArr [JNum 2])])]"

definition row_complete :: hourly_record where
  "row_complete =
     \<lparr> time = Some 1704067200000000000, pm10 = Fin 10, pm2_5 = Fin 60, carbon_monoxide = Fin 1,
       nitrogen_dioxide = Fin 1, sulphur_dioxide = Fin 1, ozone = Fin 1, uv_index = Fin 2,
       city = JStr ''Mumbai'', hour = Some 0, AQI_category = ''Moderate'',
       severity_score = Fin 343, risk = ''Moderate Risk'' \<rparr>"

definition payload_hourly_text :: json where
  "payload_hourly_text = JObj [(''hourly'', JStr ''unavailable'')]"

definition payload_time_number :: json where
  "payload_time_number = JObj [(''hourly'', JObj [(''time'', JNum 5)])]"

text \<open>
  Every attempt times out; the sink would work. In the three worlds the process runs in
  \<^verbatim>\<open>/srv/etl\<close>, so a relative path resolves under that directory.
\<close>

definition world_timeout :: "nat \<Rightarrow> attempt_env" where
  "world_timeout k =
     \<lparr> response = RequestException ''timed out'',
       sink_env = \<lparr> now_ts = ''20240101T000000Z'', resolved = append ''/srv/etl/'',
                    json_write = None, txt_write = None \<rparr> \<rparr>"

text \<open>Every attempt gets a body; the sink refuses both writes.\<close>

definition world_disk_full :: "nat \<Rightarrow> attempt_env" where
  "world_disk_full k =
     \<lparr> response = Body payload_complete,
       sink_env = \<lparr> now_ts = ''20240101T000000Z'', resolved = append ''/srv/etl/'',
                    json_write = Some ''No space left on device'',
                    txt_write = Some ''No space left on device'' \<rparr> \<rparr>"

text \<open>The first attempt times out, the second gets a body; the sink takes only the text file.\<close>

definition world_second_try :: "nat \<Rightarrow> attempt_env" where
  "world_second_try k =
     \<lparr> response = (if k = 1 then RequestException ''timed out'' else Body payload_complete),
       sink_env = \<lparr> now_ts = ''20240101T000000Z'', resolved = append ''/srv/etl/'',
                    json_write = Some ''not serializable'',
                    txt_write = None \<rparr> \<rparr>"

text \<open>Six stored rows: four flagged low, one high, one with the flag missing.\<close>

definition frame_six_rows :: "(string \<times> column) list" where
  "frame_six_rows =
     [(''risk_flag'', Strs [Some ''Low Risk'', Some ''Low Risk'', None, Some ''Low Risk'',
                            Some ''High Risk'', Some ''Low Risk''])]"

text \<open>
  Nineteen stored rows whose flags are nineteen different texts, and the entries
  \<^verbatim>\<open>risk_percentage\<close> has for them: each is the float 5.26.
\<close>

definition nineteen_flags :: "string list" where
  "nineteen_flags =
     [''R01'', ''R02'', ''R03'', ''R04'', ''R05'', ''R06'', ''R07'', ''R08'', ''R09'', ''R10'',
      ''R11'', ''R12'', ''R13'', ''R14'', ''R15'', ''R16'', ''R17'', ''R18'', ''R19'']"

definition frame_nineteen_flags :: "(string \<times> column) list" where
  "frame_nineteen_flags = [(''risk_flag'', Strs (map Some nineteen_flags))]"

definition pct_nineteen_flags :: "(string \<times> real) list" where
  "pct_nineteen_flags =
     map (\<lambda>k. (k, 2961116754996101 / 562949953421312)) nineteen_flags"


section \<open>Properties\<close>

subsection \<open>Absent cells in the feature functions\<close>

lemma fl_add_NaN [simp]: "fl_add NaN x = NaN" "fl_add x NaN = NaN"
  by (cases x; simp)+

lemma fl_mul_NaN [simp]: "fl_mul NaN x = NaN" "fl_mul x NaN = NaN"
  by (cases x; simp)+

lemma isna_iff: "isna x \<longleftrightarrow> x = NaN"
  by (cases x) simp_all

lemma compute_severity_series:
  "compute_severity (series p10 p25 co no2 so2 o3 uv) =
     fl_add (fl_add (fl_add (fl_add (fl_add
       (fl_mul p25 (Fin 5)) (fl_mul p10 (Fin 3))) (fl_mul no2 (Fin 4)))
       (fl_mul so2 (Fin 4))) (fl_mul co (Fin 2))) (fl_mul o3 (Fin 3))"
  by (simp add: compute_severity_def series_def row_get_def)

lemma compute_severity_absent:
  "NaN \<in> {p10, p25, co, no2, so2, o3} \<Longrightarrow>
     compute_severity (series p10 p25 co no2 so2 o3 uv) = NaN"
  unfolding compute_severity_series by auto

lemma classify_aqi_NaN: "classify_aqi NaN = ''Hazardous''"
  by (simp add: classify_aqi_def)

lemma derived_ok_mk_record: "derived_ok (mk_record cn t p10 p25 co no2 so2 o3 uv)"
  by (simp add: derived_ok_def mk_record_def Let_def)

lemma frame_rows_derived:
  assumes "frame_rows parse cn n data = Some rows" and "r \<in> set rows"
  shows "derived_ok r"
proof -
  from assms(1) obtain ts p10s p25s cos no2s so2s o3s uvs where
    "Some (map (\<lambda>i. mk_record cn (ts ! i) (p10s ! i) (p25s ! i) (cos ! i)
                          (no2s ! i) (so2s ! i) (o3s ! i) (uvs ! i)) [0..<n]) = Some rows"
    unfolding frame_rows_def bind_eq_Some_conv by blast
  then have "rows = map (\<lambda>i. mk_record cn (ts ! i) (p10s ! i) (p25s ! i) (cos ! i)
                          (no2s ! i) (so2s ! i) (o3s ! i) (uvs ! i)) [0..<n]"
    by simp
  with assms(2) show ?thesis
    by (auto simp: derived_ok_mk_record)
qed

lemma set_dropna_all: "set (dropna_all rows) \<subseteq> set rows"
  by (auto simp: dropna_all_def)

lemma flatten_payload_derived:
  assumes "flatten_payload parse fb p = Returned rows" and "r \<in> set rows"
  shows "derived_ok r"
proof -
  from assms(1) have "rows = [] \<or> (\<exists>cn n data full. frame_rows parse cn n data = Some full \<and> rows = dropna_all full)"
    unfolding flatten_payload_def Let_def
    by (auto split: json.splits sum.splits prod.splits option.splits if_splits)
  with assms(2) obtain cn n data full where "frame_rows parse cn n data = Some full" "r \<in> set full"
    using set_dropna_all by fastforce
  then show ?thesis by (rule frame_rows_derived)
qed

lemma flatten_city_json_derived:
  assumes "flatten_city_json parse fb p = Returned rows" and "r \<in> set rows"
  shows "derived_ok r"
proof (cases p)
  case (JArr ps)
  show ?thesis
  proof (cases ps)
    case Nil
    with JArr assms show ?thesis by (simp add: flatten_city_json_def)
  next
    case (Cons q qs)
    with JArr assms have "flatten_payload parse fb q = Returned rows"
      by (simp add: flatten_city_json_def)
    then show ?thesis using assms(2) by (rule flatten_payload_derived)
  qed
qed (use assms flatten_payload_derived in \<open>auto simp: flatten_city_json_def\<close>)

lemma set_first_seen: "set (first_seen xs) = set xs"
  by (simp add: first_seen_def)

lemma value_counts_keys: "fst ` set (value_counts xs) = set xs"
  by (force simp: value_counts_def set_first_seen)

lemmas flatten_defs =
  flatten_city_json_def flatten_payload_def dict_get_def max_len_def cols_def frame_rows_def
  mk_record_def series_def compute_severity_def row_get_def classify_aqi_def
  risk_classification_def dropna_all_def subset_cells_def dt_hour_def parse_iso_def

text \<open>
  Claim C1 says that an absent pollutant counts as 0 in \<open>severity_score\<close>, so that a row with
  PM2.5 = 60 and nothing else scores 300. \<^verbatim>\<open>row.get(key, 0)\<close> falls back to 0 only for a
  missing label; the padded cell is there and holds \<open>NaN\<close>, so the score of that row is \<open>NaN\<close>.
\<close>

theorem severity_of_partial_row_is_NaN:
  "flatten_city_json parse_iso ''Delhi'' payload_pm2_5_only =
     Returned [\<lparr> time = Some 1704067200000000000, pm10 = NaN, pm2_5 = Fin 60,
                 carbon_monoxide = NaN, nitrogen_dioxide = NaN, sulphur_dioxide = NaN,
                 ozone = NaN, uv_index = NaN, city = JStr ''Delhi'', hour = Some 0,
                 AQI_category = ''Moderate'', severity_score = NaN, risk = ''Low Risk'' \<rparr>]"
  by (simp add: payload_pm2_5_only_def flatten_defs)

text \<open>
  Claim C2 says that a row whose PM2.5 is absent is classified as if PM2.5 were 0, that is
  \<open>Good\<close>. The absent cell is \<open>NaN\<close>, every \<^verbatim>\<open><=\<close> test of \<^verbatim>\<open>classify_aqi\<close> fails on it, and the
  \<^verbatim>\<open>else\<close> branch labels the row \<open>Hazardous\<close>.
\<close>

theorem aqi_of_absent_pm2_5_is_Hazardous:
  "flatten_city_json parse_iso ''Delhi'' payload_pm2_5_null =
     Returned [\<lparr> time = Some 1704067200000000000, pm10 = Fin 10, pm2_5 = NaN,
                 carbon_monoxide = NaN, nitrogen_dioxide = NaN, sulphur_dioxide = NaN,
                 ozone = NaN, uv_index = NaN, city = JStr ''Delhi'', hour = Some 0,
                 AQI_category = ''Hazardous'', severity_score = NaN, risk = ''Low Risk'' \<rparr>]"
  by (simp add: payload_pm2_5_null_def flatten_defs)

text \<open>
  Claim C3 says that a row is dropped exactly when its six pollutant cells are all absent.
  \<^verbatim>\<open>dropna(subset=cols, how="all")\<close> also looks at \<^verbatim>\<open>uv_index\<close>, the seventh entry of \<^verbatim>\<open>cols\<close>: a
  row with a UV index and no pollutant at all is retained.
\<close>

theorem row_without_pollutants_is_retained:
  "flatten_city_json parse_iso ''Delhi'' payload_uv_only =
     Returned [\<lparr> time = Some 1704067200000000000, pm10 = NaN, pm2_5 = NaN,
                 carbon_monoxide = NaN, nitrogen_dioxide = NaN, sulphur_dioxide = NaN,
                 ozone = NaN, uv_index = Fin 3.5, city = JStr ''Delhi'', hour = Some 0,
                 AQI_category = ''Hazardous'', severity_score = NaN, risk = ''Low Risk'' \<rparr>]"
  by (simp add: payload_uv_only_def flatten_defs)

subsection \<open>The risk label of every produced row\<close>

text \<open>
  Claim C9: every row \<^verbatim>\<open>flatten_city_json\<close> returns carries one of the three risk labels (so,
  passed on unchanged, the labels never fill the \<open>Unknown\<close> bucket of \<^verbatim>\<open>value_counts\<close>), and
  a returned row with an absent pollutant cell is \<open>Low Risk\<close> whatever its other cells hold.
\<close>

theorem risk_flag_defined_low_when_absent:
  assumes "flatten_city_json parse fallback payload = Returned rows" and "r \<in> set rows"
  shows "risk r \<in> {''Low Risk'', ''Moderate Risk'', ''High Risk''} \<and>
         ((\<exists>x\<in>set (pollutants r). isna x) \<longrightarrow> risk r = ''Low Risk'') \<and>
         ''Unknown'' \<notin> fst ` set (value_counts (fillna ''Unknown'' (map (\<lambda>r. Some (risk r)) rows)))"
proof -
  have labels: "risk q \<in> {''Low Risk'', ''Moderate Risk'', ''High Risk''}" if "q \<in> set rows" for q
    using flatten_city_json_derived [OF assms(1) that]
    by (simp add: derived_ok_def risk_classification_def)
  have d: "derived_ok r" using assms by (rule flatten_city_json_derived)
  have "risk r = ''Low Risk''" if "\<exists>x\<in>set (pollutants r). isna x"
  proof -
    from that have "NaN \<in> {pm10 r, pm2_5 r, carbon_monoxide r, nitrogen_dioxide r,
                          sulphur_dioxide r, ozone r}"
      by (auto simp: pollutants_def isna_iff)
    then have "severity_score r = NaN"
      using d compute_severity_absent unfolding derived_ok_def by presburger
    then show ?thesis using d by (simp add: derived_ok_def risk_classification_def)
  qed
  moreover have "''Unknown'' \<notin> fst ` set (value_counts (fillna ''Unknown'' (map (\<lambda>r. Some (risk r)) rows)))"
  proof -
    have "set (fillna ''Unknown'' (map (\<lambda>r. Some (risk r)) rows)) = risk ` set rows"
      by (auto simp: fillna_def)
    moreover have "''Unknown'' \<notin> risk ` set rows"
      using labels by fastforce
    ultimately show ?thesis by (simp add: value_counts_keys)
  qed
  ultimately show ?thesis using labels [OF assms(2)] by blast
qed

text \<open>
  The theorem at a row with PM2.5 = 1000, four more pollutants at 500 and no PM10.
\<close>

lemma flatten_no_pm10:
  "flatten_city_json parse_iso ''Delhi'' payload_no_pm10 = Returned [row_no_pm10]"
  by (simp add: payload_no_pm10_def row_no_pm10_def flatten_defs)

theorem risk_flag_defined_low_when_absent_witness:
  "flatten_city_json parse_iso ''Delhi'' payload_no_pm10 = Returned [row_no_pm10] \<and>
   row_no_pm10 \<in> set [row_no_pm10] \<and>
   (\<exists>x\<in>set (pollutants row_no_pm10). isna x) \<and>
   pm2_5 row_no_pm10 = Fin 1000 \<and>
   risk row_no_pm10 = ''Low Risk''"
proof -
  have h1: "flatten_city_json parse_iso ''Delhi'' payload_no_pm10 = Returned [row_no_pm10]"
    by (rule flatten_no_pm10)
  have h2: "row_no_pm10 \<in> set [row_no_pm10]" by simp
  have h3: "\<exists>x\<in>set (pollutants row_no_pm10). isna x"
    by (simp add: pollutants_def row_no_pm10_def)
  from risk_flag_defined_low_when_absent [OF h1 h2] h3 have "risk row_no_pm10 = ''Low Risk''" by blast
  with h1 h2 h3 show ?thesis by (simp add: row_no_pm10_def)
qed

subsection \<open>Padding writes into the payload\<close>

lemma fold_max_ge: "(a::nat) \<le> fold max ns a"
proof (induction ns arbitrary: a)
  case (Cons x xs)
  have "a \<le> max x a" by simp
  also have "\<dots> \<le> fold max xs (max x a)" by (rule Cons.IH)
  finally show ?case by simp
qed simp

lemma fold_max_bound: "(k::nat) \<in> set ns \<Longrightarrow> k \<le> fold max ns a"
proof (induction ns arbitrary: a)
  case (Cons x xs)
  show ?case
  proof (cases "k = x")
    case True
    have "x \<le> max x a" by simp
    also have "\<dots> \<le> fold max xs (max x a)" by (rule fold_max_ge)
    finally show ?thesis using True by simp
  next
    case False
    with Cons.prems have "k \<in> set xs" by simp
    then show ?thesis using Cons.IH by simp
  qed
qed simp

lemma len_all_arrays:
  "\<forall>v\<in>set vs. \<exists>xs. v = JArr xs \<Longrightarrow> len_all vs = Inr (map (\<lambda>v. case v of JArr xs \<Rightarrow> length xs | _ \<Rightarrow> 0) vs)"
  by (induction vs) auto

lemma max_len_arrays:
  assumes "\<forall>c\<in>set (''time'' # cols). \<forall>v. map_of h c = Some v \<longrightarrow> (\<exists>xs. v = JArr xs)"
  shows "\<exists>n. max_len h = Inr n \<and>
           (\<forall>c\<in>set (''time'' # cols). \<forall>xs. map_of h c = Some (JArr xs) \<longrightarrow> length xs \<le> n)"
proof -
  let ?vs = "map (\<lambda>c. dict_get h c (JArr [])) (cols @ [''time''])"
  let ?ns = "map (\<lambda>v. case v of JArr xs \<Rightarrow> length xs | _ \<Rightarrow> 0) ?vs"
  have arr: "\<forall>v\<in>set ?vs. \<exists>xs. v = JArr xs"
    using assms by (auto simp: dict_get_def split: option.splits)
  have m: "max_len h = Inr (fold max ?ns 0)"
    unfolding max_len_def using len_all_arrays [OF arr] by simp
  have "length xs \<le> fold max ?ns 0" if "c \<in> set (''time'' # cols)" "map_of h c = Some (JArr xs)" for c xs
  proof -
    from that(1) have "dict_get h c (JArr []) \<in> set ?vs" by auto
    with that(2) have "JArr xs \<in> set ?vs" by (simp add: dict_get_def)
    then have "(case JArr xs of JArr x \<Rightarrow> length x | _ \<Rightarrow> 0) \<in> set ?ns"
      unfolding set_map [of _ ?vs] by (rule imageI)
    then have "length xs \<in> set ?ns" by (simp only: json.case)
    then show ?thesis by (rule fold_max_bound)
  qed
  with m show ?thesis by blast
qed

lemma pad_columns_frame:
  assumes "distinct cs"
    and "\<forall>c\<in>set cs. \<forall>v. map_of h c = Some v \<longrightarrow> (\<exists>xs. v = JArr xs \<and> length xs \<le> n)"
  shows "\<exists>data h'. pad_columns n cs h data0 = (Inr data, h') \<and> map fst h' = map fst h \<and>
           (\<forall>c\<in>set cs. \<forall>xs. map_of h c = Some (JArr xs) \<longrightarrow>
                map_of h' c = Some (JArr (xs @ replicate (n - length xs) JNull))) \<and>
           (\<forall>k. k \<notin> set cs \<or> map_of h k = None \<longrightarrow> map_of h' k = map_of h k)"
  using assms
proof (induction cs arbitrary: h data0)
  case Nil
  then show ?case by simp
next
  case (Cons c cs)
  from Cons.prems have dist: "distinct cs" and notin: "c \<notin> set cs" by simp_all
  show ?case
  proof (cases "map_of h c")
    case None
    from Cons.prems(2) have "\<forall>c\<in>set cs. \<forall>v. map_of h c = Some v \<longrightarrow> (\<exists>xs. v = JArr xs \<and> length xs \<le> n)"
      by simp
    from Cons.IH [OF dist this, of "data0 @ [(c, JArr (replicate n JNull))]"] None
    show ?thesis by auto
  next
    case (Some v)
    with Cons.prems(2) obtain xs where v: "v = JArr xs" and le: "length xs \<le> n" by auto
    show ?thesis
    proof (cases "length xs < n")
      case True
      let ?arr = "JArr (xs @ replicate (n - length xs) JNull)"
      let ?h1 = "AList.update c ?arr h"
      have m1: "map_of ?h1 = (map_of h)(c \<mapsto> ?arr)" by (simp add: update_conv')
      have k1: "map fst ?h1 = map fst h"
        using map_of_SomeD [OF Some] by (force simp: update_keys)
      have "\<forall>c'\<in>set cs. \<forall>v. map_of ?h1 c' = Some v \<longrightarrow> (\<exists>xs. v = JArr xs \<and> length xs \<le> n)"
        using Cons.prems(2) notin by (auto simp: m1)
      from Cons.IH [OF dist this, of "data0 @ [(c, ?arr)]"]
      obtain data h' where r: "pad_columns n cs ?h1 (data0 @ [(c, ?arr)]) = (Inr data, h')"
        and keys: "map fst h' = map fst ?h1"
        and p: "\<forall>c'\<in>set cs. \<forall>xs. map_of ?h1 c' = Some (JArr xs) \<longrightarrow>
                map_of h' c' = Some (JArr (xs @ replicate (n - length xs) JNull))"
        and f: "\<forall>k. k \<notin> set cs \<or> map_of ?h1 k = None \<longrightarrow> map_of h' k = map_of ?h1 k"
        by blast
      have "pad_columns n (c # cs) h data0 = (Inr data, h')"
        using Some v True r by simp
      moreover have "map fst h' = map fst h" using keys k1 by simp
      moreover have "map_of h' c' = Some (JArr (ys @ replicate (n - length ys) JNull))"
        if "c' \<in> set (c # cs)" "map_of h c' = Some (JArr ys)" for c' ys
      proof (cases "c' = c")
        case True
        with that(2) Some v have "ys = xs" by simp
        moreover have "map_of h' c = map_of ?h1 c" using f notin by blast
        ultimately show ?thesis using True by (simp add: m1)
      next
        case False
        with that have "c' \<in> set cs" "map_of ?h1 c' = Some (JArr ys)" by (simp_all add: m1)
        with p show ?thesis by blast
      qed
      moreover have "map_of h' k = map_of h k" if "k \<notin> set (c # cs) \<or> map_of h k = None" for k
      proof -
        from that Some have ne: "k \<noteq> c" by auto
        then have "map_of ?h1 k = map_of h k" by (simp add: m1)
        moreover from that ne have "k \<notin> set cs \<or> map_of ?h1 k = None" by (auto simp: m1)
        ultimately show ?thesis using f by metis
      qed
      ultimately show ?thesis by blast
    next
      case False
      with le have eq: "length xs = n" by simp
      from Cons.prems(2) have "\<forall>c\<in>set cs. \<forall>v. map_of h c = Some v \<longrightarrow> (\<exists>xs. v = JArr xs \<and> length xs \<le> n)"
        by simp
      from Cons.IH [OF dist this, of "data0 @ [(c, v)]"]
      obtain data h' where r: "pad_columns n cs h (data0 @ [(c, v)]) = (Inr data, h')"
        and keys: "map fst h' = map fst h"
        and p: "\<forall>c'\<in>set cs. \<forall>xs. map_of h c' = Some (JArr xs) \<longrightarrow>
                map_of h' c' = Some (JArr (xs @ replicate (n - length xs) JNull))"
        and f: "\<forall>k. k \<notin> set cs \<or> map_of h k = None \<longrightarrow> map_of h' k = map_of h k"
        by blast
      have "pad_columns n (c # cs) h data0 = (Inr data, h')"
        using Some v eq r by simp
      moreover have "\<forall>c'\<in>set (c # cs). \<forall>ys. map_of h c' = Some (JArr ys) \<longrightarrow>
                map_of h' c' = Some (JArr (ys @ replicate (n - length ys) JNull))"
        using p f notin Some v eq by auto
      moreover have "\<forall>k. k \<notin> set (c # cs) \<or> map_of h k = None \<longrightarrow> map_of h' k = map_of h k"
        using f by auto
      ultimately show ?thesis using keys by blast
    qed
  qed
qed


text \<open>
  Claim C10 as stated fails: after the loop, the section holds arrays of different lengths.
  The maximum over \<^verbatim>\<open>time\<close> and \<^verbatim>\<open>cols\<close> is 2 and the PM2.5 and PM10 arrays are extended to
  it, but the array under \<^verbatim>\<open>dust\<close>, a key outside \<^verbatim>\<open>cols\<close>, keeps its single cell.
\<close>

theorem padding_leaves_other_arrays:
  "max_len ragged_hourly = Inr 2 \<and>
   snd (pad_columns 2 (''time'' # cols) ragged_hourly []) =
     [(''time'', JArr [JStr ''2024-01-01T00:00'', JStr ''2024-01-01T01:00'']),
      (''pm2_5'', JArr [JNum 60, JNull]),
      (''pm10'', JArr [JNull, JNull]),
      (''dust'', JArr [JNum 1])]"
  by (simp add: max_len_def cols_def dict_get_def ragged_hourly_def numeral_2_eq_2 Let_def)


lemma pad_columns_data:
  assumes "distinct cs"
    and "\<forall>c\<in>set cs. \<forall>v. map_of h c = Some v \<longrightarrow> (\<exists>xs. v = JArr xs \<and> length xs \<le> n)"
  shows "fst (pad_columns n cs h data0) =
           Inr (data0 @ map (\<lambda>c. (c, padded_cell n (map_of h c))) cs)"
  using assms
proof (induction cs arbitrary: h data0)
  case Nil
  then show ?case by simp
next
  case (Cons c cs)
  from Cons.prems have dist: "distinct cs" and notin: "c \<notin> set cs" by simp_all
  have rest: "\<forall>c\<in>set cs. \<forall>v. map_of h c = Some v \<longrightarrow> (\<exists>xs. v = JArr xs \<and> length xs \<le> n)"
    using Cons.prems(2) by simp
  show ?case
  proof (cases "map_of h c")
    case None
    have step: "pad_columns n (c # cs) h data0 =
                  pad_columns n cs h (data0 @ [(c, JArr (replicate n JNull))])"
      using None by simp
    have pc: "padded_cell n (map_of h c) = JArr (replicate n JNull)"
      using None by (simp add: padded_cell_def)
    show ?thesis
      unfolding step Cons.IH [OF dist rest, of "data0 @ [(c, JArr (replicate n JNull))]"]
      by (simp add: pc)
  next
    case (Some v)
    with Cons.prems(2) obtain xs where v: "v = JArr xs" and le: "length xs \<le> n" by auto
    show ?thesis
    proof (cases "length xs < n")
      case True
      let ?arr = "JArr (xs @ replicate (n - length xs) JNull)"
      let ?h1 = "AList.update c ?arr h"
      have m1: "map_of ?h1 = (map_of h)(c \<mapsto> ?arr)" by (simp add: update_conv')
      have same: "map (\<lambda>c. (c, padded_cell n (map_of ?h1 c))) cs =
                  map (\<lambda>c. (c, padded_cell n (map_of h c))) cs"
        using notin by (intro map_cong) (auto simp: m1)
      have ok: "\<forall>c'\<in>set cs. \<forall>v. map_of ?h1 c' = Some v \<longrightarrow> (\<exists>xs. v = JArr xs \<and> length xs \<le> n)"
        using rest notin by (auto simp: m1)
      have step: "pad_columns n (c # cs) h data0 = pad_columns n cs ?h1 (data0 @ [(c, ?arr)])"
        using Some v True by (simp add: Let_def)
      have pc: "padded_cell n (map_of h c) = ?arr"
        using Some v by (simp add: padded_cell_def)
      show ?thesis
        unfolding step Cons.IH [OF dist ok, of "data0 @ [(c, ?arr)]"] same
        by (simp add: pc)
    next
      case False
      with le have eq: "length xs = n" by simp
      have step: "pad_columns n (c # cs) h data0 = pad_columns n cs h (data0 @ [(c, v)])"
        using Some v eq by simp
      have pc: "padded_cell n (map_of h c) = v"
        using Some v eq by (simp add: padded_cell_def)
      show ?thesis
        unfolding step Cons.IH [OF dist rest, of "data0 @ [(c, v)]"]
        by (simp add: pc)
    qed
  qed
qed

lemma fold_max_attained: "fold max ns (a::nat) = a \<or> fold max ns a \<in> set ns"
proof (induction ns arbitrary: a)
  case (Cons x xs)
  from Cons.IH [of "max x a"] show ?case by (auto simp: max_def split: if_splits)
qed simp


lemma max_len_attained:
  assumes "max_len h = Inr n"
    and "\<forall>c\<in>set (''time'' # cols). \<forall>v. map_of h c = Some v \<longrightarrow> (\<exists>xs. v = JArr xs)"
  shows "n = 0 \<or> (\<exists>c\<in>set (''time'' # cols). \<exists>xs. map_of h c = Some (JArr xs) \<and> length xs = n)"
proof -
  let ?vs = "map (\<lambda>c. dict_get h c (JArr [])) (cols @ [''time''])"
  let ?ns = "map (\<lambda>v. case v of JArr xs \<Rightarrow> length xs | _ \<Rightarrow> 0) ?vs"
  have arr: "\<forall>v\<in>set ?vs. \<exists>xs. v = JArr xs"
    using assms(2) by (auto simp: dict_get_def split: option.splits)
  have "max_len h = Inr (fold max ?ns 0)"
    unfolding max_len_def using len_all_arrays [OF arr] by simp
  with assms(1) have n: "n = fold max ?ns 0" by simp
  show ?thesis
  proof (cases "n = 0")
    case False
    with n fold_max_attained [of ?ns 0] have "n \<in> set ?ns" by auto
    then obtain c where c: "c \<in> set (cols @ [''time''])"
      and len: "n = (case dict_get h c (JArr []) of JArr xs \<Rightarrow> length xs | _ \<Rightarrow> 0)"
      by auto
    from len False obtain xs where "map_of h c = Some (JArr xs)" "length xs = n"
      by (auto simp: dict_get_def split: option.splits json.splits)
    with c show ?thesis by auto
  qed simp
qed

text \<open>
  Claim C10, as the code has it. For an hourly section whose entries under \<^verbatim>\<open>time\<close> and
  \<^verbatim>\<open>cols\<close> are arrays where present, the loop runs to its end on the object
  \<^verbatim>\<open>flatten_city_json\<close> has loaded: the maximum length is 0 or the length of one of these
  arrays; each of them is extended in place, inside the section, by \<^verbatim>\<open>None\<close> markers to that
  maximum; the section keeps its keys, and its entries under other keys are as they were;
  \<^verbatim>\<open>data\<close>, which the frame is made of, holds the extended arrays, and markers only for a
  column the section lacks.
\<close>

theorem padding_extends_columns_of_interest:
  assumes "\<forall>c\<in>set (''time'' # cols). \<forall>v. map_of h c = Some v \<longrightarrow> (\<exists>xs. v = JArr xs)"
  shows "\<exists>n data h'.
           max_len h = Inr n \<and>
           (n = 0 \<or> (\<exists>c\<in>set (''time'' # cols). \<exists>xs. map_of h c = Some (JArr xs) \<and> length xs = n)) \<and>
           pad_columns n (''time'' # cols) h [] = (Inr data, h') \<and>
           map fst h' = map fst h \<and>
           data = map (\<lambda>c. (c, padded_cell n (map_of h c))) (''time'' # cols) \<and>
           (\<forall>c\<in>set (''time'' # cols). \<forall>xs. map_of h c = Some (JArr xs) \<longrightarrow>
              length xs \<le> n \<and>
              map_of h' c = Some (JArr (xs @ replicate (n - length xs) JNull))) \<and>
           (\<forall>k. k \<notin> set (''time'' # cols) \<longrightarrow> map_of h' k = map_of h k)"
proof -
  from max_len_arrays [OF assms] obtain n where n: "max_len h = Inr n"
    and le: "\<forall>c\<in>set (''time'' # cols). \<forall>xs. map_of h c = Some (JArr xs) \<longrightarrow> length xs \<le> n"
    by blast
  have att: "n = 0 \<or> (\<exists>c\<in>set (''time'' # cols). \<exists>xs. map_of h c = Some (JArr xs) \<and> length xs = n)"
    using n assms by (rule max_len_attained)
  have d: "distinct (''time'' # cols)" by (simp add: cols_def)
  have b: "\<forall>c\<in>set (''time'' # cols). \<forall>v. map_of h c = Some v \<longrightarrow> (\<exists>xs. v = JArr xs \<and> length xs \<le> n)"
    using assms le by blast
  from pad_columns_frame [OF d b, of "[]"]
  obtain data h' where p: "pad_columns n (''time'' # cols) h [] = (Inr data, h')"
    and keys: "map fst h' = map fst h"
    and pad: "\<forall>c\<in>set (''time'' # cols). \<forall>xs. map_of h c = Some (JArr xs) \<longrightarrow>
                map_of h' c = Some (JArr (xs @ replicate (n - length xs) JNull))"
    and frame: "\<forall>k. k \<notin> set (''time'' # cols) \<or> map_of h k = None \<longrightarrow> map_of h' k = map_of h k"
    by blast
  from pad_columns_data [OF d b, of "[]"] p
  have dat: "data = map (\<lambda>c. (c, padded_cell n (map_of h c))) (''time'' # cols)" by simp
  from n att p keys dat pad frame le show ?thesis by blast
qed

text \<open>The theorem at a section with two times, one PM2.5 value and an empty PM10 array.\<close>

theorem padding_extends_columns_of_interest_witness:
  "max_len ragged_hourly = Inr 2 \<and>
   map_of ragged_hourly ''time'' =
     Some (JArr [JStr ''2024-01-01T00:00'', JStr ''2024-01-01T01:00'']) \<and>
   (\<exists>data h'. pad_columns 2 (''time'' # cols) ragged_hourly [] = (Inr data, h') \<and>
      map_of h' ''pm2_5'' = Some (JArr [JNum 60, JNull]) \<and>
      map_of h' ''pm10'' = Some (JArr [JNull, JNull]) \<and>
      map_of h' ''ozone'' = None \<and>
      map_of h' ''dust'' = Some (JArr [JNum 1]) \<and>
      map_of data ''ozone'' = Some (JArr [JNull, JNull]))"
proof -
  have h: "\<forall>c\<in>set (''time'' # cols). \<forall>v. map_of ragged_hourly c = Some v \<longrightarrow> (\<exists>xs. v = JArr xs)"
    by (simp add: cols_def ragged_hourly_def)
  have m: "max_len ragged_hourly = Inr 2"
    by (simp add: max_len_def cols_def dict_get_def ragged_hourly_def)
  have t: "map_of ragged_hourly ''time'' =
             Some (JArr [JStr ''2024-01-01T00:00'', JStr ''2024-01-01T01:00''])"
    by (simp add: ragged_hourly_def)
  from padding_extends_columns_of_interest [OF h] m
  obtain data h' where p: "pad_columns 2 (''time'' # cols) ragged_hourly [] = (Inr data, h')"
    and keys: "map fst h' = map fst ragged_hourly"
    and dat: "data = map (\<lambda>c. (c, padded_cell 2 (map_of ragged_hourly c))) (''time'' # cols)"
    and pad: "\<forall>c\<in>set (''time'' # cols). \<forall>xs. map_of ragged_hourly c = Some (JArr xs) \<longrightarrow>
              length xs \<le> 2 \<and> map_of h' c = Some (JArr (xs @ replicate (2 - length xs) JNull))"
    and frame: "\<forall>k. k \<notin> set (''time'' # cols) \<longrightarrow> map_of h' k = map_of ragged_hourly k"
    by auto
  have a: "map_of h' ''pm2_5'' = Some (JArr [JNum 60, JNull])"
  proof -
    have "''pm2_5'' \<in> set (''time'' # cols)" by (simp add: cols_def)
    moreover have "map_of ragged_hourly ''pm2_5'' = Some (JArr [JNum 60])" by (simp add: ragged_hourly_def)
    ultimately have "map_of h' ''pm2_5'' = Some (JArr ([JNum 60] @ replicate (2 - length [JNum 60]) JNull))"
      using pad by blast
    then show ?thesis by (simp add: numeral_2_eq_2)
  qed
  have b: "map_of h' ''pm10'' = Some (JArr [JNull, JNull])"
  proof -
    have "''pm10'' \<in> set (''time'' # cols)" by (simp add: cols_def)
    moreover have "map_of ragged_hourly ''pm10'' = Some (JArr [])" by (simp add: ragged_hourly_def)
    ultimately have "map_of h' ''pm10'' = Some (JArr ([] @ replicate (2 - length ([] :: json list)) JNull))"
      using pad by blast
    then show ?thesis by (simp add: numeral_2_eq_2)
  qed
  have c: "map_of h' ''ozone'' = None"
  proof -
    have "fst ` set h' = set (map fst ragged_hourly)"
      using keys by (metis set_map)
    then have "''ozone'' \<notin> fst ` set h'" by (simp add: ragged_hourly_def)
    then show ?thesis by (simp add: map_of_eq_None_iff)
  qed
  have d: "map_of h' ''dust'' = Some (JArr [JNum 1])"
    using frame by (simp add: cols_def ragged_hourly_def)
  have e: "map_of data ''ozone'' = Some (JArr [JNull, JNull])"
    unfolding dat by (simp add: cols_def ragged_hourly_def padded_cell_def numeral_2_eq_2)
  from m t p a b c d e show ?thesis by blast
qed

subsection \<open>Malformed payloads\<close>

lemma transform_all_Cons:
  "transform_all parse (f # files) = transform_loop parse (f # files)"
  by (simp add: transform_all_def split: flatten_result.splits)

lemma transform_loop_skip:
  "flatten_city_json parse fallback payload = Returned [] \<Longrightarrow>
     transform_loop parse ((fallback, payload) # files) = transform_loop parse files"
  by (simp split: flatten_result.splits)

lemma transform_loop_raise:
  "flatten_city_json parse fallback payload = Raised e \<Longrightarrow>
     transform_loop parse ((fallback, payload) # files) = Raised e"
  by simp

lemma py_len_error: "py_len v = Inl e \<Longrightarrow> e = TypeError"
  by (cases v) simp_all

lemma len_all_error:
  "v \<in> set vs \<Longrightarrow> py_len v = Inl e \<Longrightarrow> len_all vs = Inl TypeError"
proof (induction vs)
  case (Cons a vs)
  show ?case
  proof (cases "py_len a")
    case (Inl e')
    then show ?thesis using py_len_error [OF Inl] by simp
  next
    case (Inr k)
    with Cons show ?thesis by auto
  qed
qed simp

lemma max_len_error:
  assumes "c \<in> set (cols @ [''time''])" and "map_of h c = Some v" and "py_len v = Inl e"
  shows "max_len h = Inl TypeError"
proof -
  from assms(1) have "dict_get h c (JArr []) \<in> set (map (\<lambda>c. dict_get h c (JArr [])) (cols @ [''time'']))"
    unfolding set_map by (rule imageI)
  moreover have "py_len (dict_get h c (JArr [])) = Inl e"
    using assms(2,3) by (simp add: dict_get_def)
  ultimately have "len_all (map (\<lambda>c. dict_get h c (JArr [])) (cols @ [''time''])) = Inl TypeError"
    by (rule len_all_error)
  then show ?thesis by (simp add: max_len_def)
qed

text \<open>
  Claim C5, as the code has it. A payload that is an empty list, or a mapping whose hourly
  section is missing or falsy, yields no rows and the loop goes on with the remaining files.
  A payload that is neither a mapping nor a list, a truthy hourly section that is not a
  mapping, or a column of interest without a length raises in \<^verbatim>\<open>flatten_city_json\<close>, and
  \<^verbatim>\<open>transform_all\<close> ends with that exception whatever files remain.
\<close>

theorem malformed_payload_skip_or_raise:
  "(payload = JArr [] \<or> (\<exists>kvs. payload = JObj kvs \<and> \<not> truthy (dict_get kvs ''hourly'' (JObj [])))
      \<longrightarrow> transform_all parse ((fallback, payload) # files) = transform_loop parse files) \<and>
   ((\<forall>kvs. payload \<noteq> JObj kvs) \<and> (\<forall>ps. payload \<noteq> JArr ps)
      \<longrightarrow> transform_all parse ((fallback, payload) # files) = Raised AttributeError) \<and>
   ((\<exists>kvs. payload = JObj kvs \<and> truthy (dict_get kvs ''hourly'' (JObj [])) \<and>
            (\<forall>h. dict_get kvs ''hourly'' (JObj []) \<noteq> JObj h))
      \<longrightarrow> transform_all parse ((fallback, payload) # files) = Raised AttributeError) \<and>
   ((\<exists>kvs h c v. payload = JObj kvs \<and> dict_get kvs ''hourly'' (JObj []) = JObj h \<and> h \<noteq> [] \<and>
            c \<in> set (cols @ [''time'']) \<and> map_of h c = Some v \<and> py_len v = Inl TypeError)
      \<longrightarrow> transform_all parse ((fallback, payload) # files) = Raised TypeError)"
proof (intro conjI impI)
  assume "payload = JArr [] \<or> (\<exists>kvs. payload = JObj kvs \<and> \<not> truthy (dict_get kvs ''hourly'' (JObj [])))"
  then have "flatten_city_json parse fallback payload = Returned []"
    by (auto simp: flatten_city_json_def flatten_payload_def Let_def)
  then show "transform_all parse ((fallback, payload) # files) = transform_loop parse files"
    unfolding transform_all_Cons by (rule transform_loop_skip)
next
  assume "(\<forall>kvs. payload \<noteq> JObj kvs) \<and> (\<forall>ps. payload \<noteq> JArr ps)"
  then have "flatten_city_json parse fallback payload = Raised AttributeError"
    by (cases payload) (simp_all add: flatten_city_json_def flatten_payload_def)
  then show "transform_all parse ((fallback, payload) # files) = Raised AttributeError"
    unfolding transform_all_Cons by (rule transform_loop_raise)
next
  assume "\<exists>kvs. payload = JObj kvs \<and> truthy (dict_get kvs ''hourly'' (JObj [])) \<and>
            (\<forall>h. dict_get kvs ''hourly'' (JObj []) \<noteq> JObj h)"
  then obtain kvs where p: "payload = JObj kvs" and t: "truthy (dict_get kvs ''hourly'' (JObj []))"
    and n: "\<forall>h. dict_get kvs ''hourly'' (JObj []) \<noteq> JObj h" by blast
  have "flatten_city_json parse fallback payload = Raised AttributeError"
    using t n unfolding p flatten_city_json_def flatten_payload_def Let_def
    by (cases "dict_get kvs ''hourly'' (JObj [])") simp_all
  then show "transform_all parse ((fallback, payload) # files) = Raised AttributeError"
    unfolding transform_all_Cons by (rule transform_loop_raise)
next
  assume "\<exists>kvs h c v. payload = JObj kvs \<and> dict_get kvs ''hourly'' (JObj []) = JObj h \<and> h \<noteq> [] \<and>
            c \<in> set (cols @ [''time'']) \<and> map_of h c = Some v \<and> py_len v = Inl TypeError"
  then obtain kvs h c v where p: "payload = JObj kvs" and h: "dict_get kvs ''hourly'' (JObj []) = JObj h"
    and ne: "h \<noteq> []" and c: "c \<in> set (cols @ [''time''])" "map_of h c = Some v" "py_len v = Inl TypeError"
    by blast
  from c have "max_len h = Inl TypeError" by (rule max_len_error)
  then have "flatten_city_json parse fallback payload = Raised TypeError"
    using h ne unfolding p flatten_city_json_def flatten_payload_def Let_def by simp
  then show "transform_all parse ((fallback, payload) # files) = Raised TypeError"
    unfolding transform_all_Cons by (rule transform_loop_raise)
qed

lemma flatten_complete:
  "flatten_city_json parse_iso ''Mumbai'' payload_complete = Returned [row_complete]"
  by (simp add: payload_complete_def row_complete_def flatten_defs)

lemma transform_complete:
  "transform_loop parse_iso [(''Mumbai'', payload_complete)] = Returned [row_complete]"
  by (simp add: flatten_complete)

text \<open>
  Claim C5 as stated fails: with a raw file that holds a JSON string before a complete one,
  \<^verbatim>\<open>transform_all\<close> raises, where the complete file alone gives its row.
\<close>

theorem malformed_payload_stops_transform:
  "transform_all parse_iso [(''Delhi'', JStr ''upstream error''), (''Mumbai'', payload_complete)] =
     Raised AttributeError \<and>
   transform_all parse_iso [(''Mumbai'', payload_complete)] = Returned [row_complete]"
  by (simp add: transform_all_def flatten_complete)
     (simp add: flatten_city_json_def flatten_payload_def)

text \<open>The theorem at two skipped payloads and three raising ones, each before a complete file.\<close>

theorem malformed_payload_skip_or_raise_witness:
  "transform_all parse_iso [(''Delhi'', JArr []), (''Mumbai'', payload_complete)] =
     Returned [row_complete] \<and>
   transform_all parse_iso [(''Delhi'', JObj [(''error'', JBool True)]), (''Mumbai'', payload_complete)] =
     Returned [row_complete] \<and>
   transform_all parse_iso [(''Delhi'', JNull), (''Mumbai'', payload_complete)] =
     Raised AttributeError \<and>
   transform_all parse_iso [(''Delhi'', payload_hourly_text), (''Mumbai'', payload_complete)] =
     Raised AttributeError \<and>
   transform_all parse_iso [(''Delhi'', payload_time_number), (''Mumbai'', payload_complete)] =
     Raised TypeError"
proof -
  let ?rest = "[(''Mumbai'', payload_complete)]"
  have 1: "transform_all parse_iso ((''Delhi'', JArr []) # ?rest) = transform_loop parse_iso ?rest"
    using malformed_payload_skip_or_raise [of "JArr []" parse_iso "''Delhi''" ?rest] by blast
  have "\<exists>kvs. JObj [(''error'', JBool True)] = JObj kvs \<and> \<not> truthy (dict_get kvs ''hourly'' (JObj []))"
    by (simp add: dict_get_def)
  then have 2: "transform_all parse_iso ((''Delhi'', JObj [(''error'', JBool True)]) # ?rest) =
                  transform_loop parse_iso ?rest"
    using malformed_payload_skip_or_raise [of "JObj [(''error'', JBool True)]" parse_iso "''Delhi''" ?rest] by blast
  have "(\<forall>kvs. JNull \<noteq> JObj kvs) \<and> (\<forall>ps. JNull \<noteq> JArr ps)" by simp
  then have 3: "transform_all parse_iso ((''Delhi'', JNull) # ?rest) = Raised AttributeError"
    using malformed_payload_skip_or_raise [of JNull parse_iso "''Delhi''" ?rest] by blast
  have "\<exists>kvs. payload_hourly_text = JObj kvs \<and> truthy (dict_get kvs ''hourly'' (JObj [])) \<and>
            (\<forall>h. dict_get kvs ''hourly'' (JObj []) \<noteq> JObj h)"
    by (simp add: payload_hourly_text_def dict_get_def)
  then have 4: "transform_all parse_iso ((''Delhi'', payload_hourly_text) # ?rest) = Raised AttributeError"
    using malformed_payload_skip_or_raise [of payload_hourly_text parse_iso "''Delhi''" ?rest] by blast
  have "payload_time_number = JObj [(''hourly'', JObj [(''time'', JNum 5)])] \<and>
        dict_get [(''hourly'', JObj [(''time'', JNum 5)])] ''hourly'' (JObj []) = JObj [(''time'', JNum 5)] \<and>
        [(''time'', JNum 5)] \<noteq> [] \<and> ''time'' \<in> set (cols @ [''time'']) \<and>
        map_of [(''time'', JNum 5)] ''time'' = Some (JNum 5) \<and> py_len (JNum 5) = Inl TypeError"
    by (simp add: payload_time_number_def dict_get_def)
  then have "\<exists>kvs h c v. payload_time_number = JObj kvs \<and> dict_get kvs ''hourly'' (JObj []) = JObj h \<and> h \<noteq> [] \<and>
            c \<in> set (cols @ [''time'']) \<and> map_of h c = Some v \<and> py_len v = Inl TypeError"
    by blast
  then have 5: "transform_all parse_iso ((''Delhi'', payload_time_number) # ?rest) = Raised TypeError"
    using malformed_payload_skip_or_raise [of payload_time_number parse_iso "''Delhi''" ?rest] by blast
  from 1 2 3 4 5 show ?thesis unfolding transform_complete by blast
qed

subsection \<open>The retry loop\<close>

lemma file_stem_Delhi: "file_stem ''Delhi'' = ''delhi''"
  by code_simp

lemma fetch_loop_all_fail:
  assumes "\<forall>k. \<exists>e. try_fetch dir (w k) c = Inl e" and "a \<le> n"
  shows "snd (fetch_loop (int n) dir w c a e s) = (n, s @ map (\<lambda>k. 2 ^ k) [a..<n])"
  using assms(2)
proof (induction "n - a" arbitrary: a e s)
  case 0
  then have "a = n" by simp
  then show ?case by (simp add: fetch_loop.simps)
next
  case (Suc d)
  then have lt: "a < n" and d: "d = n - Suc a" and le: "Suc a \<le> n" by simp_all
  from assms(1) obtain e' where f: "try_fetch dir (w (Suc a)) c = Inl e'" by blast
  have "fetch_loop (int n) dir w c a e s = fetch_loop (int n) dir w c (Suc a) (Some e') (s @ [2 ^ a])"
    using lt f by (simp add: fetch_loop.simps [of _ _ _ _ a])
  also have "snd \<dots> = (n, (s @ [2 ^ a]) @ map (\<lambda>k. 2 ^ k) [Suc a..<n])"
    by (rule Suc.hyps(1) [OF d le])
  also have "(s @ [2 ^ a]) @ map (\<lambda>k. 2 ^ k) [Suc a..<n] = s @ map (\<lambda>k. 2 ^ k) [a..<n]"
    using lt by (simp add: upt_conv_Cons)
  finally show ?case .
qed

text \<open>
  Claim C4 says that no sleep follows the final attempt. With three attempts that all time
  out the loop sleeps 1, 2 and 4 seconds: the \<^verbatim>\<open>time.sleep(backoff)\<close> at the end of the loop body
  also runs after the third attempt, before the \<^verbatim>\<open>while\<close> test ends the loop. The attempts
  are three and the result is the failure dictionary with the last error.
\<close>

theorem sleeps_after_final_attempt:
  "fetch_city 3 ''data/raw'' world_timeout ''Delhi'' =
     (fetch_failure ''Delhi'' (Some ''timed out''), 3, [1, 2, 4])"
  by (simp add: fetch_city_def fetch_loop.simps world_timeout_def try_fetch_def)

text \<open>
  Claim C6 as stated fails: the request and the parsing of the body succeed, both writes of
  the sink fail, and the result of the fetch is the failure dictionary.
\<close>

theorem persistence_failure_fails_fetch:
  "response (world_disk_full 1) = Body payload_complete \<and>
   fetch_city 1 ''data/raw'' world_disk_full ''Delhi'' =
     (fetch_failure ''Delhi'' (Some ''No space left on device''), 1, [1])"
  by (simp add: fetch_city_def fetch_loop.simps world_disk_full_def try_fetch_def save_raw_def)

text \<open>
  Claim C6, as the code has it. In an attempt whose request and body parsing succeed, the
  outcome of \<^verbatim>\<open>_save_raw\<close> decides. When it returns a path (the JSON file or the text
  fallback was written), the fetch returns the success dictionary with that path at once.
  When it raises, the attempt is a failed one: if another attempt is left, the message
  becomes \<^verbatim>\<open>last_error\<close> and the loop goes on with it after the backoff sleep; if it was the
  last attempt, the fetch returns the failure dictionary with that message.
\<close>

theorem persistence_decides_attempt:
  assumes "int attempt < MAX_RETRIES" and "response (world (attempt + 1)) = Body payload"
  shows "(\<forall>saved_path.
            save_raw RAW_DIR (sink_env (world (attempt + 1))) payload city_name = Inr saved_path \<longrightarrow>
            fetch_loop MAX_RETRIES RAW_DIR world city_name attempt last_error slept =
              (fetch_success city_name saved_path, attempt + 1, slept)) \<and>
         (\<forall>msg.
            save_raw RAW_DIR (sink_env (world (attempt + 1))) payload city_name = Inl msg \<and>
            int (attempt + 1) < MAX_RETRIES \<longrightarrow>
            fetch_loop MAX_RETRIES RAW_DIR world city_name attempt last_error slept =
              fetch_loop MAX_RETRIES RAW_DIR world city_name (attempt + 1) (Some msg)
                (slept @ [2 ^ attempt])) \<and>
         (\<forall>msg.
            save_raw RAW_DIR (sink_env (world (attempt + 1))) payload city_name = Inl msg \<and>
            \<not> int (attempt + 1) < MAX_RETRIES \<longrightarrow>
            fst (fetch_loop MAX_RETRIES RAW_DIR world city_name attempt last_error slept) =
              fetch_failure city_name (Some msg) \<and>
            fst (snd (fetch_loop MAX_RETRIES RAW_DIR world city_name attempt last_error slept)) =
              attempt + 1) \<and>
         ((\<exists>saved_path. save_raw RAW_DIR (sink_env (world (attempt + 1))) payload city_name =
              Inr saved_path) \<longleftrightarrow>
            json_write (sink_env (world (attempt + 1))) = None \<or>
            txt_write (sink_env (world (attempt + 1))) = None)"
proof -
  have sink: "(\<exists>saved_path. save_raw RAW_DIR env payload city_name = Inr saved_path) \<longleftrightarrow>
          json_write env = None \<or> txt_write env = None" for env
    by (simp add: save_raw_def split: option.splits)
  have step: "fetch_loop MAX_RETRIES RAW_DIR world city_name attempt last_error slept =
      (case save_raw RAW_DIR (sink_env (world (attempt + 1))) payload city_name of
         Inr saved_path \<Rightarrow> (fetch_success city_name saved_path, attempt + 1, slept)
       | Inl e \<Rightarrow> fetch_loop MAX_RETRIES RAW_DIR world city_name (attempt + 1) (Some e)
                   (slept @ [2 ^ attempt]))"
    using assms
    by (simp add: try_fetch_def fetch_loop.simps [of _ _ _ _ attempt] split: sum.splits)
  have last: "fetch_loop MAX_RETRIES RAW_DIR world city_name (attempt + 1) (Some msg) sl =
                (fetch_failure city_name (Some msg), attempt + 1, sl)"
    if "\<not> int (attempt + 1) < MAX_RETRIES" for msg sl
    using that by (simp add: fetch_loop.simps [of _ _ _ _ "Suc attempt"])
  show ?thesis
    using sink [of "sink_env (world (attempt + 1))"] last
    by (auto simp: step)
qed

text \<open>
  The theorem at a second attempt stored through the text fallback, at a first of two
  attempts with both writes failing, and at a single attempt with both writes failing.
\<close>

theorem persistence_decides_attempt_witness:
  "response (world_second_try 2) = Body payload_complete \<and>
   fetch_loop 3 ''data/raw'' world_second_try ''Delhi'' 1 (Some ''timed out'') [1] =
     (fetch_success ''Delhi'' ''/srv/etl/data/raw/delhi_raw_20240101T000000Z.txt'', 2, [1]) \<and>
   response (world_disk_full 1) = Body payload_complete \<and>
   fetch_loop 2 ''data/raw'' world_disk_full ''Delhi'' 0 None [] =
     fetch_loop 2 ''data/raw'' world_disk_full ''Delhi'' 1 (Some ''No space left on device'') [1] \<and>
   fst (fetch_loop 1 ''data/raw'' world_disk_full ''Delhi'' 0 None []) =
     fetch_failure ''Delhi'' (Some ''No space left on device'') \<and>
   fst (snd (fetch_loop 1 ''data/raw'' world_disk_full ''Delhi'' 0 None [])) = 1"
proof -
  have a1: "int 1 < 3" by simp
  have a2: "response (world_second_try (1 + 1)) = Body payload_complete"
    by (simp add: world_second_try_def)
  have a3: "save_raw ''data/raw'' (sink_env (world_second_try (1 + 1))) payload_complete ''Delhi'' =
              Inr ''/srv/etl/data/raw/delhi_raw_20240101T000000Z.txt''"
    by (simp add: save_raw_def world_second_try_def file_stem_Delhi)
  have b1: "int 0 < 2" and c1: "int 0 < 1" by simp_all
  have b2: "response (world_disk_full (0 + 1)) = Body payload_complete"
    by (simp add: world_disk_full_def)
  have b3: "save_raw ''data/raw'' (sink_env (world_disk_full (0 + 1))) payload_complete ''Delhi'' =
              Inl ''No space left on device''"
    by (simp add: save_raw_def world_disk_full_def)
  from persistence_decides_attempt [where attempt = 1 and MAX_RETRIES = 3 and world = world_second_try
        and payload = payload_complete and RAW_DIR = "''data/raw''" and city_name = "''Delhi''"
        and last_error = "Some ''timed out''" and slept = "[1]"] a1 a2 a3
  have r1: "fetch_loop 3 ''data/raw'' world_second_try ''Delhi'' 1 (Some ''timed out'') [1] =
     (fetch_success ''Delhi'' ''/srv/etl/data/raw/delhi_raw_20240101T000000Z.txt'', 2, [1])"
    by simp
  from persistence_decides_attempt [where attempt = 0 and MAX_RETRIES = 2 and world = world_disk_full
        and payload = payload_complete and RAW_DIR = "''data/raw''" and city_name = "''Delhi''"
        and last_error = None and slept = "[]"] b1 b2 b3
  have r2: "fetch_loop 2 ''data/raw'' world_disk_full ''Delhi'' 0 None [] =
     fetch_loop 2 ''data/raw'' world_disk_full ''Delhi'' 1 (Some ''No space left on device'') [1]"
    by simp
  from persistence_decides_attempt [where attempt = 0 and MAX_RETRIES = 1 and world = world_disk_full
        and payload = payload_complete and RAW_DIR = "''data/raw''" and city_name = "''Delhi''"
        and last_error = None and slept = "[]"] c1 b2 b3
  have r3: "fst (fetch_loop 1 ''data/raw'' world_disk_full ''Delhi'' 0 None []) =
              fetch_failure ''Delhi'' (Some ''No space left on device'') \<and>
            fst (snd (fetch_loop 1 ''data/raw'' world_disk_full ''Delhi'' 0 None [])) = 1"
    by simp
  have a2': "response (world_second_try 2) = Body payload_complete"
    by (simp add: world_second_try_def)
  have b2': "response (world_disk_full 1) = Body payload_complete"
    by (simp add: world_disk_full_def)
  from a2' r1 b2' r2 r3 show ?thesis by blast
qed

subsection \<open>Risk percentages\<close>

lemmas float_eval = percentage_def py_round_def float_mul_def float_div_def RN_def expo_def
  expo_hi.simps expo_lo.simps pow2_def rint_def Let_def

lemma pow2_pos: "0 < pow2 e"
  by (simp add: pow2_def)

lemma pow2_Suc: "pow2 (e + 1) = 2 * pow2 e"
proof (cases "0 \<le> e")
  case True
  then have "nat (e + 1) = Suc (nat e)" by simp
  with True show ?thesis by (simp add: pow2_def)
next
  case False
  show ?thesis
  proof (cases "e = -1")
    case True
    then show ?thesis by (simp add: pow2_def)
  next
    case ne: False
    with False have "nat (- e) = Suc (nat (- (e + 1)))" by simp
    with False ne show ?thesis by (simp add: pow2_def)
  qed
qed

lemma pow2_pred: "pow2 (e - 1) = pow2 e / 2"
  using pow2_Suc [of "e - 1"] by simp

lemma pow2_diff_nat: "pow2 (e - int k) = pow2 e / 2 ^ k"
proof (induction k)
  case (Suc k)
  have "pow2 (e - int (Suc k)) = pow2 ((e - int k) - 1)" by (simp add: algebra_simps)
  also have "\<dots> = pow2 (e - int k) / 2" by (rule pow2_pred)
  finally show ?case by (simp add: Suc)
qed simp

lemma expo_hi_bounds: "1 \<le> x \<Longrightarrow> pow2 (expo_hi x) \<le> x \<and> x < 2 * pow2 (expo_hi x)"
proof (induction x rule: expo_hi.induct)
  case (1 x)
  show ?case
  proof (cases "2 \<le> x")
    case True
    then have e: "expo_hi x = expo_hi (x / 2) + 1" by (simp add: expo_hi.simps [of x])
    from True have "1 \<le> x / 2" by simp
    from "1.IH" [OF True this]
    have "pow2 (expo_hi (x / 2)) \<le> x / 2" "x / 2 < 2 * pow2 (expo_hi (x / 2))" by simp_all
    then show ?thesis unfolding e pow2_Suc by simp
  next
    case False
    then have "expo_hi x = 0" by (simp add: expo_hi.simps [of x])
    with False "1.prems" show ?thesis by (simp add: pow2_def)
  qed
qed

lemma expo_lo_bounds:
  "0 < x \<Longrightarrow> x < 1 \<Longrightarrow> pow2 (expo_lo x) \<le> x \<and> x < 2 * pow2 (expo_lo x)"
proof (induction x rule: expo_lo.induct)
  case (1 x)
  from "1.prems" have e: "expo_lo x = expo_lo (x * 2) - 1" by (simp add: expo_lo.simps [of x])
  show ?case
  proof (cases "x * 2 < 1")
    case True
    from "1.prems" have "0 < x * 2" by simp
    from "1.IH" [OF _ this True] "1.prems"
    have "pow2 (expo_lo (x * 2)) \<le> x * 2" "x * 2 < 2 * pow2 (expo_lo (x * 2))" by simp_all
    then show ?thesis unfolding e pow2_pred by simp
  next
    case False
    then have "expo_lo (x * 2) = 0" by (simp add: expo_lo.simps [of "x * 2"])
    with False "1.prems" show ?thesis unfolding e by (simp add: pow2_def)
  qed
qed

lemma expo_bounds: "0 < x \<Longrightarrow> pow2 (expo x) \<le> x \<and> x < 2 * pow2 (expo x)"
  using expo_hi_bounds [of x] expo_lo_bounds [of x] by (cases "1 \<le> x") (simp_all add: expo_def)

lemma rint_error: "\<bar>of_int (rint x) - x\<bar> \<le> 1 / 2"
proof -
  have "of_int \<lfloor>x\<rfloor> \<le> x" "x < of_int \<lfloor>x\<rfloor> + 1" by linarith+
  then show ?thesis by (auto simp: rint_def Let_def)
qed

lemma rint_of_int [simp]: "rint (of_int k) = k"
  by (simp add: rint_def)

lemma rint_nonneg: "0 \<le> x \<Longrightarrow> 0 \<le> rint x"
proof -
  assume "0 \<le> x"
  then have "0 \<le> \<lfloor>x\<rfloor>" by simp
  then show ?thesis by (simp add: rint_def Let_def)
qed

lemma rint_le: "x < of_int n + 1 / 2 \<Longrightarrow> rint x \<le> n"
proof -
  assume a: "x < of_int n + 1 / 2"
  have "of_int (rint x) - x \<le> 1 / 2" using rint_error [of x] by linarith
  with a have "(of_int (rint x) :: real) < of_int n + 1" by linarith
  then show ?thesis by linarith
qed

lemma RN_error: "\<bar>RN x - x\<bar> \<le> \<bar>x\<bar> / 2 ^ 53"
proof (cases "x = 0")
  case True
  then show ?thesis by (simp add: RN_def)
next
  case False
  define e where "e = expo \<bar>x\<bar>"
  define u where "u = pow2 (e - 52)"
  have upos: "0 < u" by (simp add: u_def pow2_pos)
  from False have "0 < \<bar>x\<bar>" by simp
  then have "pow2 e \<le> \<bar>x\<bar>" unfolding e_def using expo_bounds by blast
  moreover have "u = pow2 e / 2 ^ 52" unfolding u_def using pow2_diff_nat [of e 52] by simp
  ultimately have ub: "u / 2 \<le> \<bar>x\<bar> / 2 ^ 53" by (simp add: field_simps)
  have rn: "RN x = of_int (rint (x / u)) * u"
    using False by (simp add: RN_def Let_def u_def e_def)
  have "RN x - x = (of_int (rint (x / u)) - x / u) * u" using upos by (simp add: rn field_simps)
  then have "\<bar>RN x - x\<bar> = \<bar>of_int (rint (x / u)) - x / u\<bar> * u"
    using upos by (simp add: abs_mult)
  also have "\<dots> \<le> (1 / 2) * u"
    using rint_error [of "x / u"] upos by (intro mult_right_mono) simp_all
  finally show ?thesis using ub by simp
qed

lemma RN_nonneg: "0 \<le> x \<Longrightarrow> 0 \<le> RN x"
proof -
  assume a: "0 \<le> x"
  have "x / 2 ^ 53 \<le> x" using a by (simp add: field_simps)
  with RN_error [of x] a show ?thesis by (simp add: abs_if split: if_splits)
qed

lemma RN_100: "RN 100 = 100"
  by (simp add: RN_def expo_def expo_hi.simps pow2_def rint_def Let_def)

lemma percentage_bounds:
  assumes "v \<le> n" and "0 < n"
  shows "0 \<le> percentage v n \<and> percentage v n \<le> 100 \<and>
         \<bar>percentage v n - real v / real n * 100\<bar> \<le> 5 / 1000 + 1 / 10 ^ 13"
proof -
  define x where "x = real v / real n"
  define q where "q = RN x"
  define y where "y = RN (q * 100)"
  define k where "k = rint (y * 100)"
  define D where "D = (of_int k :: real) / 100"
  have p: "percentage v n = RN D"
    by (simp add: percentage_def py_round_def float_mul_def float_div_def
        D_def k_def y_def q_def x_def)
  have x0: "0 \<le> x" and x1: "x \<le> 1" using assms by (simp_all add: x_def)
  have q0: "0 \<le> q" unfolding q_def using x0 by (rule RN_nonneg)
  have "\<bar>q - x\<bar> \<le> \<bar>x\<bar> / 2 ^ 53" unfolding q_def by (rule RN_error)
  with x0 x1 have qx: "\<bar>q - x\<bar> \<le> 1 / 9007199254740992" by (simp add: field_simps)
  have y0: "0 \<le> y" unfolding y_def using q0 by (intro RN_nonneg) simp
  have "\<bar>y - q * 100\<bar> \<le> \<bar>q * 100\<bar> / 2 ^ 53" unfolding y_def by (rule RN_error)
  with q0 have yq: "\<bar>y - q * 100\<bar> \<le> q * 100 / 9007199254740992" by simp
  from qx x1 have q1: "q \<le> 1 + 1 / 9007199254740992" by linarith
  from yq q1 have yq': "\<bar>y - q * 100\<bar> \<le> 101 / 9007199254740992" by linarith
  from qx yq' have yx: "\<bar>y - x * 100\<bar> \<le> 201 / 9007199254740992" by linarith
  have kD: "\<bar>D - y\<bar> \<le> 5 / 1000"
    using rint_error [of "y * 100"] by (simp add: D_def k_def field_simps)
  have k0: "0 \<le> k" unfolding k_def using y0 by (intro rint_nonneg) simp
  from yx x1 have "y \<le> 100 + 201 / 9007199254740992" by linarith
  then have "y * 100 < 10000 + 1 / 2" by linarith
  then have "y * 100 < of_int 10000 + 1 / 2" by simp
  then have k1: "k \<le> 10000" unfolding k_def by (rule rint_le)
  have D0: "0 \<le> D" using k0 by (simp add: D_def)
  have D1: "D \<le> 100" using k1 by (simp add: D_def)
  have "\<bar>RN D - D\<bar> \<le> \<bar>D\<bar> / 2 ^ 53" by (rule RN_error)
  with D0 have pD: "\<bar>RN D - D\<bar> \<le> D / 9007199254740992" by simp
  with D1 have pD': "\<bar>RN D - D\<bar> \<le> 100 / 9007199254740992" by linarith
  have lo: "0 \<le> RN D" using D0 by (rule RN_nonneg)
  have hi: "RN D \<le> 100"
  proof (cases "k = 10000")
    case True
    then have "D = 100" by (simp add: D_def)
    then show ?thesis by (simp add: RN_100)
  next
    case False
    with k1 have "k \<le> 9999" by simp
    then have "D \<le> 9999 / 100" by (simp add: D_def)
    with pD show ?thesis by linarith
  qed
  have "\<bar>RN D - x * 100\<bar> \<le> 5 / 1000 + 301 / 9007199254740992"
    using pD' kD yx by linarith
  also have "\<dots> \<le> 5 / 1000 + 1 / 10 ^ 13" by simp
  finally show ?thesis using lo hi by (simp add: p x_def)
qed

lemma sum_list_insort_key:
  "sum_list (map g (insort_key f x xs)) = (g x :: real) + sum_list (map g xs)"
  by (induction xs) simp_all

lemma sum_list_sort_key: "sum_list (map g (sort_key f xs)) = (sum_list (map g xs) :: real)"
  by (induction xs) (simp_all add: sum_list_insort_key)

lemma distinct_first_seen: "distinct (first_seen xs)"
  by (simp add: first_seen_def)

lemma sum_count_first_seen: "sum_list (map (count_list xs) (first_seen xs)) = length xs"
proof -
  have "sum_list (map (count_list xs) (first_seen xs)) = sum (count_list xs) (set (first_seen xs))"
    using distinct_first_seen by (rule sum_list_distinct_conv_sum_set)
  also have "\<dots> = length xs"
    by (simp add: set_first_seen sum_count_set)
  finally show ?thesis .
qed

lemma sum_list_error:
  "(\<forall>x\<in>set xs. \<bar>f x - g x\<bar> \<le> (e::real)) \<Longrightarrow>
     \<bar>sum_list (map f xs) - sum_list (map g xs)\<bar> \<le> real (length xs) * e"
proof (induction xs)
  case (Cons a xs)
  then have "\<bar>f a - g a\<bar> \<le> e" and "\<bar>sum_list (map f xs) - sum_list (map g xs)\<bar> \<le> real (length xs) * e"
    by simp_all
  then show ?case by (simp add: algebra_simps)
qed simp


lemma distinct_map_insort_key:
  "distinct (map g (insort_key f x xs)) \<longleftrightarrow> g x \<notin> g ` set xs \<and> distinct (map g xs)"
  by (induction xs) (auto simp: set_insort_key)

lemma distinct_map_sort_key: "distinct (map g (sort_key f xs)) \<longleftrightarrow> distinct (map g xs)"
  by (induction xs) (simp_all add: distinct_map_insort_key)

lemma set_value_counts: "set (value_counts xs) = (\<lambda>k. (k, count_list xs k)) ` set xs"
  by (simp add: value_counts_def set_first_seen)

lemma distinct_value_counts: "distinct (map fst (value_counts xs))"
  by (simp add: value_counts_def distinct_map_sort_key comp_def distinct_first_seen)

lemma sum_list_scaled:
  "sum_list (map (\<lambda>k. real (c k) / t * 100) ks) = real (sum_list (map c ks)) / t * 100"
  by (induction ks) (simp_all add: add_divide_distrib distrib_right)

lemma count_list_le_length: "count_list xs k \<le> length xs"
  by (induction xs) auto

lemma sum_value_counts:
  "sum_list (map (\<lambda>kv. h (snd kv)) (value_counts xs)) =
     (sum_list (map (\<lambda>k. h (count_list xs k)) (first_seen xs)) :: real)"
  by (simp add: value_counts_def sum_list_sort_key comp_def)

lemma percentage_23_of_160: "percentage 23 160 = 8089590830664253 / 562949953421312"
  by (simp add: float_eval)

lemma risk_percentage_eq:
  assumes "map_of df ''risk_flag'' = Some (Strs flags)" and "length flags = nrows df"
    and "flags \<noteq> []"
  shows "risk_percentage df =
           Some (map (\<lambda>kv. (fst kv, percentage (snd kv) (length flags)))
                     (value_counts (fillna ''Unknown'' flags)))"
proof -
  from assms(1) have "df \<noteq> []" by auto
  moreover from assms(2,3) have "nrows df \<noteq> 0" by (metis length_0_conv)
  ultimately have "\<not> df_empty df" by (simp add: df_empty_def)
  then show ?thesis
    using assms(1,2) by (simp add: risk_percentage_def Let_def case_prod_beta)
qed

lemma sum_pct_error:
  assumes "xs \<noteq> []"
  shows "\<bar>sum_list (map (\<lambda>kv. percentage (snd kv) (length xs)) (value_counts xs)) - 100\<bar>
           \<le> real (card (set xs)) * (5 / 1000 + 1 / 10 ^ 13)"
proof -
  let ?t = "real (length xs)"
  let ?keys = "first_seen xs"
  let ?exact = "\<lambda>k. real (count_list xs k) / ?t * 100"
  let ?pct = "\<lambda>k. percentage (count_list xs k) (length xs)"
  have pos: "0 < length xs" using assms by simp
  have "sum_list (map ?exact ?keys) = real (sum_list (map (count_list xs) ?keys)) / ?t * 100"
    by (rule sum_list_scaled)
  also have "\<dots> = 100" using assms by (simp add: sum_count_first_seen)
  finally have exact: "sum_list (map ?exact ?keys) = 100" .
  have "\<forall>k\<in>set ?keys. \<bar>?pct k - ?exact k\<bar> \<le> 5 / 1000 + 1 / 10 ^ 13"
    using percentage_bounds [OF count_list_le_length pos] by blast
  then have "\<bar>sum_list (map ?pct ?keys) - sum_list (map ?exact ?keys)\<bar>
               \<le> real (length ?keys) * (5 / 1000 + 1 / 10 ^ 13)"
    by (rule sum_list_error)
  moreover have "length ?keys = card (set xs)"
    using distinct_card [OF distinct_first_seen, of xs] by (simp add: set_first_seen)
  moreover have "sum_list (map (\<lambda>kv. percentage (snd kv) (length xs)) (value_counts xs)) =
                 sum_list (map ?pct ?keys)"
    by (rule sum_value_counts)
  ultimately show ?thesis using exact by simp
qed


lemma percentage_1_of_19: "percentage (Suc 0) 19 = 2961116754996101 / 562949953421312"
  by (simp add: float_eval)

lemma value_counts_nineteen:
  "value_counts (fillna ''Unknown'' (map Some nineteen_flags)) = map (\<lambda>k. (k, Suc 0)) nineteen_flags"
  by (simp add: nineteen_flags_def fillna_def value_counts_def first_seen_def)

text \<open>
  Claim C7 as stated fails: with nineteen rows and nineteen different flags every entry is
  the float 5.26, and the entries sum to 99.94, further than 0.05 from 100.
\<close>

theorem nineteen_flags_sum_off_by_more:
  "risk_percentage frame_nineteen_flags = Some pct_nineteen_flags \<and>
   5 / 100 < \<bar>sum_list (map snd pct_nineteen_flags) - 100\<bar>"
proof
  have n: "nrows frame_nineteen_flags = 19"
    by (simp add: frame_nineteen_flags_def nrows_def nineteen_flags_def)
  show "risk_percentage frame_nineteen_flags = Some pct_nineteen_flags"
    unfolding risk_percentage_def df_empty_def n
    by (simp add: frame_nineteen_flags_def value_counts_nineteen pct_nineteen_flags_def
        percentage_1_of_19)
  show "5 / 100 < \<bar>sum_list (map snd pct_nineteen_flags) - 100\<bar>"
    by (simp add: pct_nineteen_flags_def nineteen_flags_def)
qed


text \<open>
  Claim C7, as the code has it. For a non-empty frame with a \<^verbatim>\<open>risk_flag\<close> column,
  \<^verbatim>\<open>risk_percentage\<close> has one entry per observed flag, a missing flag counted as \<open>Unknown\<close>.
  Each entry is the float that \<^verbatim>\<open>round((v / total) * 100, 2)\<close> gives for the count of the
  flag: the float nearest to a number of two decimals, within 0.005 of the exact percentage
  up to a float rounding error below \<open>10\<^sup>-\<^sup>1\<^sup>3\<close>, and between 0 and 100. The entries
  differ in sum from 100 by at most that much per entry; with at most nine different flags
  the sum is within 0.05 of 100.
\<close>

theorem risk_percentage_float_bounds:
  assumes "map_of df ''risk_flag'' = Some (Strs flags)" and "length flags = nrows df"
    and "flags \<noteq> []"
  shows "\<exists>pct. risk_percentage df = Some pct \<and>
           distinct (map fst pct) \<and>
           fst ` set pct = set (fillna ''Unknown'' flags) \<and>
           (\<forall>(k, p)\<in>set pct.
              p = percentage (count_list (fillna ''Unknown'' flags) k) (length flags) \<and>
              (\<exists>m::int. p = RN (of_int m / 100)) \<and>
              \<bar>p - real (count_list (fillna ''Unknown'' flags) k) / real (length flags) * 100\<bar>
                \<le> 5 / 1000 + 1 / 10 ^ 13 \<and>
              0 \<le> p \<and> p \<le> 100) \<and>
           \<bar>sum_list (map snd pct) - 100\<bar>
             \<le> real (card (set (fillna ''Unknown'' flags))) * (5 / 1000 + 1 / 10 ^ 13) \<and>
           (card (set (fillna ''Unknown'' flags)) \<le> 9 \<longrightarrow>
              \<bar>sum_list (map snd pct) - 100\<bar> \<le> 5 / 100)"
proof -
  let ?xs = "fillna ''Unknown'' flags"
  let ?pct = "map (\<lambda>kv. (fst kv, percentage (snd kv) (length flags))) (value_counts ?xs)"
  have len: "length ?xs = length flags" by (simp add: fillna_def)
  have ne: "?xs \<noteq> []" using assms(3) by (simp add: fillna_def)
  have pos: "0 < length flags" using assms(3) by simp
  have eq: "risk_percentage df = Some ?pct" using assms by (rule risk_percentage_eq)
  have keys: "map fst ?pct = map fst (value_counts ?xs)" by (simp add: comp_def)
  then have d: "distinct (map fst ?pct)" by (simp only: distinct_value_counts)
  have "fst ` set ?pct = set (map fst ?pct)" by (simp only: set_map)
  also have "\<dots> = fst ` set (value_counts ?xs)" by (simp only: keys set_map)
  also have "\<dots> = set ?xs" by (force simp: set_value_counts)
  finally have k: "fst ` set ?pct = set ?xs" .
  have each: "p = percentage (count_list ?xs k) (length flags) \<and>
                (\<exists>m::int. p = RN (of_int m / 100)) \<and>
                \<bar>p - real (count_list ?xs k) / real (length flags) * 100\<bar>
                  \<le> 5 / 1000 + 1 / 10 ^ 13 \<and>
                0 \<le> p \<and> p \<le> 100" if "(k, p) \<in> set ?pct" for k p
  proof -
    from that have p: "p = percentage (count_list ?xs k) (length flags)"
      by (auto simp: set_value_counts)
    have c: "count_list ?xs k \<le> length flags" using count_list_le_length [of ?xs k] len by simp
    have "\<exists>m::int. p = RN (of_int m / 100)"
      unfolding p percentage_def py_round_def by (rule exI [of _ "rint _"]) simp
    with p percentage_bounds [OF c pos] show ?thesis by simp
  qed
  have "sum_list (map snd ?pct) =
          sum_list (map (\<lambda>kv. percentage (snd kv) (length ?xs)) (value_counts ?xs))"
    by (simp add: comp_def len)
  then have total: "\<bar>sum_list (map snd ?pct) - 100\<bar>
                      \<le> real (card (set ?xs)) * (5 / 1000 + 1 / 10 ^ 13)"
    using sum_pct_error [OF ne] by simp
  have nine: "\<bar>sum_list (map snd ?pct) - 100\<bar> \<le> 5 / 100" if "card (set ?xs) \<le> 9"
  proof -
    from that have "real (card (set ?xs)) \<le> 9" by simp
    then have "real (card (set ?xs)) * (5 / 1000 + 1 / 10 ^ 13) \<le> 9 * (5 / 1000 + 1 / 10 ^ 13)"
      by (intro mult_right_mono) simp_all
    also have "\<dots> \<le> 5 / 100" by simp
    finally show ?thesis using total by linarith
  qed
  from eq d k each total nine show ?thesis by blast
qed

text \<open>
  The theorem at six rows with counts 4, 1, 1: entries 66.67, 16.67 and 16.67 as floats,
  which sum to 100.01 and not to 100.
\<close>

lemma percentage_4_of_6: "percentage 4 6 = 4691484174324859 / 70368744177664"
  by (simp add: float_eval)

lemma percentage_1_of_6: "percentage (Suc 0) 6 = 1173046965441659 / 70368744177664"
  by (simp add: float_eval)

lemma risk_percentage_six_rows:
  "risk_percentage frame_six_rows =
     Some [(''Low Risk'', 4691484174324859 / 70368744177664),
           (''Unknown'', 1173046965441659 / 70368744177664),
           (''High Risk'', 1173046965441659 / 70368744177664)]"
proof -
  have n: "nrows frame_six_rows = 6" by (simp add: frame_six_rows_def nrows_def)
  have v: "value_counts (fillna ''Unknown''
             [Some ''Low Risk'', Some ''Low Risk'', None, Some ''Low Risk'',
              Some ''High Risk'', Some ''Low Risk'']) =
           [(''Low Risk'', 4), (''Unknown'', Suc 0), (''High Risk'', Suc 0)]"
    by (simp add: fillna_def value_counts_def first_seen_def)
  show ?thesis
    unfolding risk_percentage_def df_empty_def n
    by (simp add: frame_six_rows_def v percentage_4_of_6 percentage_1_of_6)
qed

theorem risk_percentage_float_bounds_witness:
  "map_of frame_six_rows ''risk_flag'' =
     Some (Strs [Some ''Low Risk'', Some ''Low Risk'', None, Some ''Low Risk'',
                 Some ''High Risk'', Some ''Low Risk'']) \<and>
   length [Some ''Low Risk'', Some ''Low Risk'', None, Some ''Low Risk'',
           Some ''High Risk'', Some ''Low Risk''] = nrows frame_six_rows \<and>
   card (set (fillna ''Unknown'' [Some ''Low Risk'', Some ''Low Risk'', None, Some ''Low Risk'',
                                  Some ''High Risk'', Some ''Low Risk''])) = 3 \<and>
   risk_percentage frame_six_rows =
     Some [(''Low Risk'', 4691484174324859 / 70368744177664),
           (''Unknown'', 1173046965441659 / 70368744177664),
           (''High Risk'', 1173046965441659 / 70368744177664)] \<and>
   \<bar>sum_list (map snd [(''Low Risk'', 4691484174324859 / 70368744177664 :: real),
                         (''Unknown'', 1173046965441659 / 70368744177664),
                         (''High Risk'', 1173046965441659 / 70368744177664)]) - 100\<bar> \<le> 5 / 100 \<and>
   sum_list (map snd [(''Low Risk'', 4691484174324859 / 70368744177664 :: real),
                      (''Unknown'', 1173046965441659 / 70368744177664),
                      (''High Risk'', 1173046965441659 / 70368744177664)]) \<noteq> 100"
proof -
  let ?flags = "[Some ''Low Risk'', Some ''Low Risk'', None, Some ''Low Risk'',
                 Some ''High Risk'', Some ''Low Risk'']"
  let ?pct = "[(''Low Risk'', 4691484174324859 / 70368744177664 :: real),
               (''Unknown'', 1173046965441659 / 70368744177664),
               (''High Risk'', 1173046965441659 / 70368744177664)]"
  have h1: "map_of frame_six_rows ''risk_flag'' = Some (Strs ?flags)"
    by (simp add: frame_six_rows_def)
  have h2: "length ?flags = nrows frame_six_rows"
    by (simp add: frame_six_rows_def nrows_def)
  have h3: "?flags \<noteq> []" by simp
  have "set (fillna ''Unknown'' ?flags) = {''Low Risk'', ''Unknown'', ''High Risk''}"
    by (auto simp: fillna_def)
  then have c: "card (set (fillna ''Unknown'' ?flags)) = 3" by simp
  then have h4: "card (set (fillna ''Unknown'' ?flags)) \<le> 9" by simp
  from risk_percentage_float_bounds [OF h1 h2 h3] h4 obtain pct where "risk_percentage frame_six_rows = Some pct"
    and "\<bar>sum_list (map snd pct) - 100\<bar> \<le> 5 / 100"
    by blast
  then have "\<bar>sum_list (map snd ?pct) - 100\<bar> \<le> 5 / 100"
    by (simp only: risk_percentage_six_rows option.inject)
  moreover have "sum_list (map snd ?pct) \<noteq> 100" by simp
  ultimately show ?thesis using h1 h2 c risk_percentage_six_rows by blast
qed

subsection \<open>The worst hour\<close>








end
